theory Spec2Isabelle
  imports Complex_Main "HOL-Library.Word" "HOL-Library.Multiset"
begin

unbundle bit_operations_syntax

section \<open>Bytes, strings and CryptoJS word arrays\<close>

text \<open>
  A \<^verbatim>\<open>Uint8Array\<close> is a list of bytes. A JavaScript string, where its UTF-16 code
  units matter (passwords: \<^verbatim>\<open>charCodeAt\<close> is compared with \<^verbatim>\<open>0xff\<close>), is a list of
  16-bit code units. The numbers on which the source uses \<^verbatim>\<open>|\<close>, \<^verbatim>\<open>&\<close>, \<^verbatim>\<open><<\<close> and
  \<^verbatim>\<open>>>\<close> are 32-bit two's-complement words, as the operators make them.
\<close>

type_synonym byte = "8 word"
type_synonym bytes = "byte list"
type_synonym js_string = "16 word list"

subsection \<open>Permission flags (\<^verbatim>\<open>getPermissionsR2\<close>, \<^verbatim>\<open>getPermissionsR3\<close>)\<close>

text \<open>
  \<^verbatim>\<open>printing?: boolean | 'lowResolution' | 'highResolution'\<close>; every field of
  \<^verbatim>\<open>UserPermissions\<close> is optional, \<^verbatim>\<open>None\<close> is \<^verbatim>\<open>undefined\<close>.
\<close>

datatype Printing = PrintingBool bool | lowResolution | highResolution

record UserPermissions =
  printing :: "Printing option"
  modifying :: "bool option"
  copying :: "bool option"
  annotating :: "bool option"
  fillingForms :: "bool option"
  contentAccessibility :: "bool option"
  documentAssembly :: "bool option"

text \<open>The default parameter \<^verbatim>\<open>permissions: UserPermissions = {}\<close>.\<close>

definition noPermissions :: UserPermissions where
  "noPermissions =
     \<lparr>printing = None, modifying = None, copying = None, annotating = None,
      fillingForms = None, contentAccessibility = None, documentAssembly = None\<rparr>"

text \<open>JavaScript truthiness of the two kinds of field: a non-empty string is truthy.\<close>

fun truthyPrinting :: "Printing option \<Rightarrow> bool" where
  "truthyPrinting None = False"
| "truthyPrinting (Some (PrintingBool b)) = b"
| "truthyPrinting (Some lowResolution) = True"
| "truthyPrinting (Some highResolution) = True"

fun truthyFlag :: "bool option \<Rightarrow> bool" where
  "truthyFlag None = False"
| "truthyFlag (Some b) = b"

text \<open>\<^verbatim>\<open>if (c) { flags |= m; }\<close>\<close>

definition orIf :: "bool \<Rightarrow> 32 word \<Rightarrow> 32 word \<Rightarrow> 32 word" where
  "orIf c m flags = (if c then flags OR m else flags)"

definition getPermissionsR2 :: "UserPermissions option \<Rightarrow> 32 word" where
  "getPermissionsR2 permissions =
     (let p = (case permissions of None \<Rightarrow> noPermissions | Some q \<Rightarrow> q);
          flags = 0xffffffc0;
          flags = orIf (truthyPrinting (printing p)) 0b000000000100 flags;
          flags = orIf (truthyFlag (modifying p)) 0b000000001000 flags;
          flags = orIf (truthyFlag (copying p)) 0b000000010000 flags;
          flags = orIf (truthyFlag (annotating p)) 0b000000100000 flags
      in flags)"

definition getPermissionsR3 :: "UserPermissions option \<Rightarrow> 32 word" where
  "getPermissionsR3 permissions =
     (let p = (case permissions of None \<Rightarrow> noPermissions | Some q \<Rightarrow> q);
          flags = 0xfffff0c0;
          flags = orIf (printing p = Some lowResolution \<or> truthyPrinting (printing p))
                    0b000000000100 flags;
          flags = orIf (printing p = Some highResolution) 0b100000000100 flags;
          flags = orIf (truthyFlag (modifying p)) 0b000000001000 flags;
          flags = orIf (truthyFlag (copying p)) 0b000000010000 flags;
          flags = orIf (truthyFlag (annotating p)) 0b000000100000 flags;
          flags = orIf (truthyFlag (fillingForms p)) 0b000100000000 flags;
          flags = orIf (truthyFlag (contentAccessibility p)) 0b001000000000 flags;
          flags = orIf (truthyFlag (documentAssembly p)) 0b010000000000 flags
      in flags)"

text \<open>
  The permission bits are numbered from 1 at the least significant end (bit 3 is
  \<^verbatim>\<open>0b100\<close>, the mask \<^verbatim>\<open>getPermissionsR3\<close> ORs in for any printing).
\<close>

definition permissionBit :: "nat \<Rightarrow> 32 word" where
  "permissionBit k = push_bit (k - 1) 1"

subsection \<open>CryptoJS word arrays\<close>

text \<open>
  A CryptoJS \<^verbatim>\<open>WordArray\<close> (\<^verbatim>\<open>words\<close>, \<^verbatim>\<open>sigBytes\<close>) is represented by the list of
  its \<^verbatim>\<open>sigBytes\<close> significant bytes, most significant byte of each word first:
  \<^verbatim>\<open>concat\<close> is \<open>@\<close>, setting \<^verbatim>\<open>sigBytes\<close> to a smaller value is \<open>take\<close>, and
  \<^verbatim>\<open>wordArrayToBuffer\<close>, which reads byte \<^verbatim>\<open>i\<close> as
  \<^verbatim>\<open>(words[i >> 2] >> (8 * (3 - i % 4))) & 0xff\<close> for \<^verbatim>\<open>i < sigBytes\<close>, is the identity on
  this representation. A word that is missing from \<^verbatim>\<open>words\<close> reads as 0 there, so
  \<^verbatim>\<open>WordArray.create(null, 16)\<close> is sixteen zero bytes.
\<close>

definition wordBytes :: "32 word \<Rightarrow> bytes" where
  "wordBytes w = [ucast (drop_bit 24 w), ucast (drop_bit 16 w), ucast (drop_bit 8 w), ucast w]"

definition WordArray_create :: "32 word list \<Rightarrow> nat \<Rightarrow> bytes" where
  "WordArray_create ws sigBytes =
     take sigBytes (concat (map wordBytes ws) @ replicate sigBytes 0)"

text \<open>\<^verbatim>\<open>WordArray.create(wa.words.slice(a, b), n)\<close> on the byte representation.\<close>

definition wordsSlice :: "bytes \<Rightarrow> nat \<Rightarrow> nat \<Rightarrow> nat \<Rightarrow> bytes" where
  "wordsSlice wa a b n = take n (take (4 * (b - a)) (drop (4 * a) wa) @ replicate n 0)"

definition lsbFirstWord :: "32 word \<Rightarrow> 32 word" where
  "lsbFirstWord data =
     push_bit 24 (data AND 0xff) OR push_bit 8 (data AND 0xff00) OR
     (signed_drop_bit 8 data AND 0xff00) OR (signed_drop_bit 24 data AND 0xff)"

subsection \<open>The primitives of CryptoJS, the clock and the random source\<close>

text \<open>
  The library \<^verbatim>\<open>crypto-js\<close> is not part of the repository: its hash functions and
  ciphers are parameters of the model. Messages, keys and initialisation vectors are
  word arrays (byte lists); a cipher takes the message, the key and, in CBC mode, the
  \<^verbatim>\<open>iv\<close> option, and returns the \<^verbatim>\<open>ciphertext\<close> field of the result.
\<close>

record CryptoJS =
  MD5 :: "bytes \<Rightarrow> bytes"
  SHA256 :: "bytes \<Rightarrow> bytes"
  RC4_encrypt :: "bytes \<Rightarrow> bytes \<Rightarrow> bytes"
  AES_CBC_Pkcs7 :: "bytes \<Rightarrow> bytes \<Rightarrow> bytes \<Rightarrow> bytes"
  AES_CBC_NoPadding :: "bytes \<Rightarrow> bytes \<Rightarrow> bytes \<Rightarrow> bytes"
  AES_ECB_NoPadding :: "bytes \<Rightarrow> bytes \<Rightarrow> bytes"

text \<open>
  \<^verbatim>\<open>CryptoJS.lib.WordArray.random\<close> is the only source of randomness. It is a stream
  of bytes with a cursor; every call consumes the bytes it returns, and the source is
  threaded through every operation that can call it.
\<close>

record RandomSource =
  randomByte :: "nat \<Rightarrow> byte"
  cursor :: nat

definition generateRandomWordArray :: "nat \<Rightarrow> RandomSource \<Rightarrow> bytes \<times> RandomSource" where
  "generateRandomWordArray n rs =
     (map (randomByte rs) [cursor rs ..< cursor rs + n], rs\<lparr>cursor := cursor rs + n\<rparr>)"

text \<open>
  \<^verbatim>\<open>Date.now().toString()\<close>: the clock reading \<open>now\<close> (milliseconds, a natural
  number) in decimal, as the ASCII bytes \<^verbatim>\<open>CryptoJS.MD5\<close> hashes for a string argument.
\<close>

fun toString :: "nat \<Rightarrow> bytes" where
  "toString n = (if n < 10 then [of_nat (48 + n)]
                 else toString (n div 10) @ [of_nat (48 + n mod 10)])"

declare toString.simps [simp del]

definition generateFileID :: "CryptoJS \<Rightarrow> nat \<Rightarrow> bytes" where
  "generateFileID cj now = MD5 cj (toString now)"

subsection \<open>Password processing\<close>

datatype error =
  ConfigurationError
  | UnsupportedAlgorithm
  | InvalidPasswordCharacter
  | TypeError

definition PASSWORD_PADDING :: bytes where
  "PASSWORD_PADDING =
     [0x28, 0xbf, 0x4e, 0x5e, 0x4e, 0x75, 0x8a, 0x41, 0x64, 0x00, 0x4e, 0x56, 0xff,
      0xfa, 0x01, 0x08, 0x2e, 0x2e, 0x00, 0xb6, 0xd0, 0x68, 0x3e, 0x80, 0x2f, 0x0c,
      0xa9, 0xfe, 0x64, 0x53, 0x69, 0x7a]"

text \<open>
  The first loop of \<^verbatim>\<open>processPasswordR2R3R4\<close>:
  \<^verbatim>\<open>while (index < length && index < 32) { code = password.charCodeAt(index);
  if (code > 0xff) throw ...; out[index] = code; index++; }\<close>.
  It returns the buffer and the index it stopped at.
\<close>

function copyPassword :: "js_string \<Rightarrow> nat \<Rightarrow> bytes \<Rightarrow> error + (bytes \<times> nat)" where
  "copyPassword password index out =
     (if index < length password \<and> index < 32 then
        (let code = password ! index in
         if code > 0xff then Inl InvalidPasswordCharacter
         else copyPassword password (index + 1) (out[index := ucast code]))
      else Inr (out, index))"
  by pat_completeness auto
termination
  by (relation "measure (\<lambda>(password, index, out). 32 - index)") auto

declare copyPassword.simps [simp del]

text \<open>
  The second loop: \<^verbatim>\<open>while (index < 32) { out[index] = PASSWORD_PADDING[index - length];
  index++; }\<close>. A negative index into the padding reads \<^verbatim>\<open>undefined\<close>, which a
  \<^verbatim>\<open>Uint8Array\<close> stores as 0.
\<close>

function padPassword :: "nat \<Rightarrow> nat \<Rightarrow> bytes \<Rightarrow> bytes" where
  "padPassword len index out =
     (if index < 32 then
        padPassword len (index + 1)
          (out[index := (if index < len then 0 else PASSWORD_PADDING ! (index - len))])
      else out)"
  by pat_completeness auto
termination
  by (relation "measure (\<lambda>(len, index, out). 32 - index)") auto

declare padPassword.simps [simp del]

text \<open>The default parameter \<^verbatim>\<open>password = ''\<close> stands for a missing argument.\<close>

definition orEmpty :: "js_string option \<Rightarrow> js_string" where
  "orEmpty password = (case password of None \<Rightarrow> [] | Some p \<Rightarrow> p)"

definition processPasswordR2R3R4 :: "js_string option \<Rightarrow> error + bytes" where
  "processPasswordR2R3R4 password =
     (let p = orEmpty password;
          out = replicate 32 0
      in case copyPassword p 0 out of
           Inl e \<Rightarrow> Inl e
         | Inr (out', index) \<Rightarrow> Inr (padPassword (length p) index out'))"

text \<open>
  \<^verbatim>\<open>processPasswordR5\<close>: \<^verbatim>\<open>out[i] = password.charCodeAt(i)\<close> for
  \<^verbatim>\<open>i < Math.min(127, password.length)\<close>; the store into the \<^verbatim>\<open>Uint8Array\<close> keeps the
  low 8 bits of the code unit.
\<close>

definition processPasswordR5 :: "js_string option \<Rightarrow> bytes" where
  "processPasswordR5 password =
     (let p = orEmpty password;
          len = min 127 (length p)
      in map ucast (take len p))"

subsection \<open>Key derivation, revisions 2 to 4\<close>

text \<open>
  \<^verbatim>\<open>(i | (i << 8) | (i << 16) | (i << 24))\<close>, and the inner loop
  \<^verbatim>\<open>for (j = 0; j < Math.ceil(key.sigBytes / 4); j++) key.words[j] = from.words[j] ^ pattern\<close>
  followed by reading the first \<^verbatim>\<open>key.sigBytes\<close> bytes of \<^verbatim>\<open>key\<close>: byte \<open>k\<close> of the
  key is byte \<open>k\<close> of \<^verbatim>\<open>from\<close> XOR byte \<open>k mod 4\<close> of the pattern word.
\<close>

definition roundPattern :: "nat \<Rightarrow> 32 word" where
  "roundPattern i =
     (let w = of_nat i in w OR push_bit 8 w OR push_bit 16 w OR push_bit 24 w)"

definition xorKeyWords :: "bytes \<Rightarrow> nat \<Rightarrow> 32 word \<Rightarrow> bytes" where
  "xorKeyWords from sigBytes pattern =
     take sigBytes
       (map (\<lambda>(k, b). b XOR wordBytes pattern ! (k mod 4)) (enumerate 0 from))"

definition getOwnerPasswordR2R3R4 ::
  "CryptoJS \<Rightarrow> nat \<Rightarrow> nat \<Rightarrow> bytes \<Rightarrow> bytes \<Rightarrow> bytes" where
  "getOwnerPasswordR2R3R4 cj r keyBits paddedUserPassword paddedOwnerPassword =
     (let digest = (MD5 cj ^^ (if r \<ge> 3 then 51 else 1)) paddedOwnerPassword;
          sigBytes = keyBits div 8
      in fold (\<lambda>i cipher. RC4_encrypt cj cipher (xorKeyWords digest sigBytes (roundPattern i)))
           [0 ..< (if r \<ge> 3 then 20 else 1)] paddedUserPassword)"

text \<open>
  \<^verbatim>\<open>for (i = 0; i < round; i++) { key = CryptoJS.MD5(key); key.sigBytes = keyBits / 8; }\<close>
\<close>

definition getEncryptionKeyR2R3R4 ::
  "CryptoJS \<Rightarrow> nat \<Rightarrow> nat \<Rightarrow> bytes \<Rightarrow> bytes \<Rightarrow> bytes \<Rightarrow> 32 word \<Rightarrow> bytes" where
  "getEncryptionKeyR2R3R4 cj r keyBits documentId paddedUserPassword ownerPasswordEntry
       permissions =
     (let key = paddedUserPassword @ ownerPasswordEntry @
                  WordArray_create [lsbFirstWord permissions] 4 @ documentId
      in ((\<lambda>k. take (keyBits div 8) (MD5 cj k)) ^^ (if r \<ge> 3 then 51 else 1)) key)"

definition getUserPasswordR2 :: "CryptoJS \<Rightarrow> bytes \<Rightarrow> error + bytes" where
  "getUserPasswordR2 cj encryptionKey =
     (case processPasswordR2R3R4 None of
        Inl e \<Rightarrow> Inl e
      | Inr padding \<Rightarrow> Inr (RC4_encrypt cj padding encryptionKey))"

definition getUserPasswordR3R4 :: "CryptoJS \<Rightarrow> bytes \<Rightarrow> bytes \<Rightarrow> error + bytes" where
  "getUserPasswordR3R4 cj documentId encryptionKey =
     (case processPasswordR2R3R4 None of
        Inl e \<Rightarrow> Inl e
      | Inr padding \<Rightarrow>
          (let cipher = MD5 cj (padding @ documentId);
               cipher = fold (\<lambda>i cipher. RC4_encrypt cj cipher
                                (xorKeyWords encryptionKey (length encryptionKey) (roundPattern i)))
                          [0 ..< 20] cipher
           in Inr (cipher @ WordArray_create [] 16)))"

subsection \<open>Key derivation, revision 5\<close>

definition getUserPasswordR5 :: "CryptoJS \<Rightarrow> bytes \<Rightarrow> RandomSource \<Rightarrow> bytes \<times> RandomSource" where
  "getUserPasswordR5 cj processedUserPassword rs =
     (let (validationSalt, rs) = generateRandomWordArray 8 rs;
          (keySalt, rs) = generateRandomWordArray 8 rs
      in (SHA256 cj (processedUserPassword @ validationSalt) @ validationSalt @ keySalt, rs))"

definition getUserEncryptionKeyR5 :: "CryptoJS \<Rightarrow> bytes \<Rightarrow> bytes \<Rightarrow> bytes \<Rightarrow> bytes" where
  "getUserEncryptionKeyR5 cj processedUserPassword userKeySalt encryptionKey =
     (let key = SHA256 cj (processedUserPassword @ userKeySalt)
      in AES_CBC_NoPadding cj encryptionKey key (WordArray_create [] 16))"

definition getOwnerPasswordR5 ::
  "CryptoJS \<Rightarrow> bytes \<Rightarrow> bytes \<Rightarrow> RandomSource \<Rightarrow> bytes \<times> RandomSource" where
  "getOwnerPasswordR5 cj processedOwnerPassword userPasswordEntry rs =
     (let (validationSalt, rs) = generateRandomWordArray 8 rs;
          (keySalt, rs) = generateRandomWordArray 8 rs
      in (SHA256 cj (processedOwnerPassword @ validationSalt @ userPasswordEntry)
            @ validationSalt @ keySalt, rs))"

definition getOwnerEncryptionKeyR5 ::
  "CryptoJS \<Rightarrow> bytes \<Rightarrow> bytes \<Rightarrow> bytes \<Rightarrow> bytes \<Rightarrow> bytes" where
  "getOwnerEncryptionKeyR5 cj processedOwnerPassword ownerKeySalt userPasswordEntry
       encryptionKey =
     (let key = SHA256 cj (processedOwnerPassword @ ownerKeySalt @ userPasswordEntry)
      in AES_CBC_NoPadding cj encryptionKey key (WordArray_create [] 16))"

definition getEncryptionKeyR5 :: "RandomSource \<Rightarrow> bytes \<times> RandomSource" where
  "getEncryptionKeyR5 rs = generateRandomWordArray 32 rs"

definition getEncryptedPermissionsR5 ::
  "CryptoJS \<Rightarrow> 32 word \<Rightarrow> bytes \<Rightarrow> RandomSource \<Rightarrow> bytes \<times> RandomSource" where
  "getEncryptedPermissionsR5 cj permissions encryptionKey rs =
     (let (r4, rs) = generateRandomWordArray 4 rs;
          cipher = WordArray_create [lsbFirstWord permissions, 0xffffffff, 0x54616462] 12 @ r4
      in (AES_ECB_NoPadding cj cipher encryptionKey, rs))"

subsection \<open>The security handler (\<^verbatim>\<open>PDFSecurity\<close>)\<close>

text \<open>
  \<^verbatim>\<open>SecurityOptions\<close>: both passwords and the permissions are optional. A condition
  on a password (\<^verbatim>\<open>!options.ownerPassword\<close>, \<^verbatim>\<open>options.ownerPassword ? ... : ...\<close>) is
  JavaScript truthiness: a string is truthy when it is not empty.
\<close>

record SecurityOptions =
  ownerPassword :: "js_string option"
  userPassword :: "js_string option"
  permissions :: "UserPermissions option"

fun truthyString :: "js_string option \<Rightarrow> bool" where
  "truthyString None = False"
| "truthyString (Some s) = (s \<noteq> [])"

text \<open>
  The \<^verbatim>\<open>Encryption\<close> dictionary; its keys \<^verbatim>\<open>V\<close>, \<^verbatim>\<open>R\<close>, \<^verbatim>\<open>O\<close>, \<^verbatim>\<open>U\<close>, \<^verbatim>\<open>P\<close>, ... carry
  the prefix \<open>enc\<close>. An optional key that was not set is \<open>None\<close>. \<^verbatim>\<open>P\<close> is the 32-bit
  two's-complement permission word (\<open>sint\<close> reads the JavaScript number).
\<close>

record StdCF =
  AuthEvent :: string
  CFM :: string
  cfLength :: nat

record Encryption =
  encV :: nat
  encR :: nat
  encO :: bytes
  encU :: bytes
  encP :: "32 word"
  encFilter :: string
  encLength :: "nat option"
  encCF :: "StdCF option"
  encStmF :: "string option"
  encStrF :: "string option"
  encOE :: "bytes option"
  encUE :: "bytes option"
  encPerms :: "bytes option"

text \<open>
  The handler: the fields \<^verbatim>\<open>id\<close>, \<^verbatim>\<open>encryption\<close>, \<^verbatim>\<open>keyBits\<close> and \<^verbatim>\<open>encryptionKey\<close> that
  \<^verbatim>\<open>initialize\<close> assigns on \<^verbatim>\<open>this\<close>. The functions below return the values they
  assign; the constructor returns the handler made of them, or the error that was
  thrown on the way.
\<close>

record PDFSecurity =
  fileID :: bytes
  encryption :: Encryption
  keyBits :: nat
  encryptionKey :: bytes

datatype Algorithm = Alg1 | Alg2 | Alg4 | Alg5

fun algorithmNumber :: "Algorithm \<Rightarrow> nat" where
  "algorithmNumber Alg1 = 1"
| "algorithmNumber Alg2 = 2"
| "algorithmNumber Alg4 = 4"
| "algorithmNumber Alg5 = 5"

text \<open>The \<^verbatim>\<open>switch\<close> of \<^verbatim>\<open>initialize\<close> on \<^verbatim>\<open>this.context.header.getVersionString()\<close>.\<close>

definition algorithmForVersion :: "string \<Rightarrow> Algorithm" where
  "algorithmForVersion version =
     (if version = ''1.4'' \<or> version = ''1.5'' then Alg2
      else if version = ''1.6'' \<or> version = ''1.7'' then Alg4
      else if version = ''1.7ext3'' then Alg5
      else Alg1)"

text \<open>
  The first \<^verbatim>\<open>switch\<close> of \<^verbatim>\<open>initializeV1V2V4\<close>: the revision, \<^verbatim>\<open>this.keyBits\<close> and the
  permission word; the \<^verbatim>\<open>default\<close> branch throws.
\<close>

fun revisionFor :: "Algorithm \<Rightarrow> UserPermissions option \<Rightarrow> error + (nat \<times> nat \<times> 32 word)" where
  "revisionFor Alg1 perms = Inr (2, 40, getPermissionsR2 perms)"
| "revisionFor Alg2 perms = Inr (3, 128, getPermissionsR3 perms)"
| "revisionFor Alg4 perms = Inr (4, 128, getPermissionsR3 perms)"
| "revisionFor Alg5 perms = Inl UnsupportedAlgorithm"

definition initializeV1V2V4 ::
  "CryptoJS \<Rightarrow> bytes \<Rightarrow> Algorithm \<Rightarrow> SecurityOptions \<Rightarrow> error + (Encryption \<times> nat \<times> bytes)" where
  "initializeV1V2V4 cj docId v options =
     (case revisionFor v (permissions options) of
        Inl e \<Rightarrow> Inl e
      | Inr (r, bits, perms) \<Rightarrow>
     (case processPasswordR2R3R4 (userPassword options) of
        Inl e \<Rightarrow> Inl e
      | Inr paddedUserPassword \<Rightarrow>
     (case (if truthyString (ownerPassword options)
            then processPasswordR2R3R4 (ownerPassword options)
            else Inr paddedUserPassword) of
        Inl e \<Rightarrow> Inl e
      | Inr paddedOwnerPassword \<Rightarrow>
     (let ownerPasswordEntry =
            getOwnerPasswordR2R3R4 cj r bits paddedUserPassword paddedOwnerPassword;
          key = getEncryptionKeyR2R3R4 cj r bits docId paddedUserPassword
                  ownerPasswordEntry perms
      in case (if r = 2 then getUserPasswordR2 cj key else getUserPasswordR3R4 cj docId key) of
           Inl e \<Rightarrow> Inl e
         | Inr userPasswordEntry \<Rightarrow>
             Inr (\<lparr>encV = algorithmNumber v, encR = r,
                   encO = ownerPasswordEntry, encU = userPasswordEntry, encP = perms,
                   encFilter = ''Standard'',
                   encLength = (if algorithmNumber v \<ge> 2 then Some bits else None),
                   encCF = (if algorithmNumber v = 4
                            then Some \<lparr>AuthEvent = ''DocOpen'', CFM = ''AESV2'',
                                       cfLength = bits div 8\<rparr>
                            else None),
                   encStmF = (if algorithmNumber v = 4 then Some ''StdCF'' else None),
                   encStrF = (if algorithmNumber v = 4 then Some ''StdCF'' else None),
                   encOE = None, encUE = None, encPerms = None\<rparr>,
                  bits, key)))))"

definition initializeV5 ::
  "CryptoJS \<Rightarrow> SecurityOptions \<Rightarrow> RandomSource \<Rightarrow> (Encryption \<times> nat \<times> bytes) \<times> RandomSource" where
  "initializeV5 cj options rs =
     (let bits = 256;
          (key, rs) = getEncryptionKeyR5 rs;
          processedUserPassword = processPasswordR5 (userPassword options);
          (userPasswordEntry, rs) = getUserPasswordR5 cj processedUserPassword rs;
          userKeySalt = wordsSlice userPasswordEntry 10 12 8;
          userEncryptionKeyEntry =
            getUserEncryptionKeyR5 cj processedUserPassword userKeySalt key;
          processedOwnerPassword =
            (if truthyString (ownerPassword options)
             then processPasswordR5 (ownerPassword options)
             else processedUserPassword);
          (ownerPasswordEntry, rs) =
            getOwnerPasswordR5 cj processedOwnerPassword userPasswordEntry rs;
          ownerKeySalt = wordsSlice ownerPasswordEntry 10 12 8;
          ownerEncryptionKeyEntry =
            getOwnerEncryptionKeyR5 cj processedOwnerPassword ownerKeySalt
              userPasswordEntry key;
          perms = getPermissionsR3 (permissions options);
          (permissionsEntry, rs) = getEncryptedPermissionsR5 cj perms key rs
      in ((\<lparr>encV = 5, encR = 5,
             encO = ownerPasswordEntry, encU = userPasswordEntry, encP = perms,
             encFilter = ''Standard'',
             encLength = Some bits,
             encCF = Some \<lparr>AuthEvent = ''DocOpen'', CFM = ''AESV3'', cfLength = bits div 8\<rparr>,
             encStmF = Some ''StdCF'', encStrF = Some ''StdCF'',
             encOE = Some ownerEncryptionKeyEntry, encUE = Some userEncryptionKeyEntry,
             encPerms = Some permissionsEntry\<rparr>,
            bits, key), rs))"

text \<open>
  \<^verbatim>\<open>initialize\<close>: the file identifier is the MD5 of the clock reading; the second
  \<^verbatim>\<open>switch\<close> sends 1, 2 and 4 to \<^verbatim>\<open>initializeV1V2V4\<close> and 5 to \<^verbatim>\<open>initializeV5\<close>.
  \<open>version\<close> is what \<^verbatim>\<open>this.context.header.getVersionString()\<close> returns.
\<close>

definition initialize ::
  "CryptoJS \<Rightarrow> string \<Rightarrow> nat \<Rightarrow> SecurityOptions \<Rightarrow> RandomSource
     \<Rightarrow> error + (PDFSecurity \<times> RandomSource)" where
  "initialize cj version now options rs =
     (let docId = generateFileID cj now;
          v = algorithmForVersion version
      in if v = Alg5 then
           (let ((e, bits, key), rs') = initializeV5 cj options rs
            in Inr (\<lparr>fileID = docId, encryption = e, keyBits = bits, encryptionKey = key\<rparr>, rs'))
         else
           (case initializeV1V2V4 cj docId v options of
              Inl err \<Rightarrow> Inl err
            | Inr (e, bits, key) \<Rightarrow>
                Inr (\<lparr>fileID = docId, encryption = e, keyBits = bits, encryptionKey = key\<rparr>, rs)))"

text \<open>The constructor (and \<^verbatim>\<open>PDFSecurity.create\<close>, which only calls it).\<close>

definition PDFSecurity_create ::
  "CryptoJS \<Rightarrow> string \<Rightarrow> nat \<Rightarrow> SecurityOptions \<Rightarrow> RandomSource
     \<Rightarrow> error + (PDFSecurity \<times> RandomSource)" where
  "PDFSecurity_create cj version now options rs =
     (if \<not> truthyString (ownerPassword options) \<and> \<not> truthyString (userPassword options)
      then Inl ConfigurationError
      else initialize cj version now options rs)"

subsection \<open>The per-object encryption closure (\<^verbatim>\<open>getEncryptFn\<close>)\<close>

text \<open>
  The closure that \<^verbatim>\<open>getEncryptFn\<close> returns, with the variables it captures: the RC4
  closure captures \<^verbatim>\<open>key\<close>; the AES closure captures \<^verbatim>\<open>key\<close> (unassigned when \<^verbatim>\<open>v\<close> is
  below 5 and none of 1, 2, 4) and \<^verbatim>\<open>iv\<close>.
\<close>

datatype EncryptFn = RC4Fn bytes | AESFn "bytes option" bytes

text \<open>
  The five bytes appended to the file key: \<^verbatim>\<open>obj\<close> and \<^verbatim>\<open>gen\<close> are JavaScript numbers
  (integers here), which the bit operators convert to 32-bit words.
\<close>

definition objGenWords :: "int \<Rightarrow> int \<Rightarrow> 32 word list" where
  "objGenWords obj gen =
     (let ob = (word_of_int obj :: 32 word); g = (word_of_int gen :: 32 word)
      in [push_bit 24 (ob AND 0xff) OR push_bit 8 (ob AND 0xff00) OR
            (signed_drop_bit 8 ob AND 0xff00) OR (g AND 0xff),
          push_bit 16 (g AND 0xff00)])"

text \<open>
  The tail of \<^verbatim>\<open>getEncryptFn\<close> that the AES paths share: the \<^verbatim>\<open>iv\<close> is drawn here,
  once, before the closure is built.
\<close>

definition aesEncryptFn :: "bytes option \<Rightarrow> RandomSource \<Rightarrow> EncryptFn \<times> RandomSource" where
  "aesEncryptFn key rs = (let (iv, rs') = generateRandomWordArray 16 rs in (AESFn key iv, rs'))"

definition getEncryptFn ::
  "CryptoJS \<Rightarrow> PDFSecurity \<Rightarrow> int \<Rightarrow> int \<Rightarrow> RandomSource \<Rightarrow> error + (EncryptFn \<times> RandomSource)" where
  "getEncryptFn cj this obj gen rs =
     (let v = encV (encryption this)
      in if v < 5 then
           (let digest = encryptionKey this @ WordArray_create (objGenWords obj gen) 5
            in if v = 1 \<or> v = 2 then
                 Inr (RC4Fn (take (min 16 (keyBits this div 8 + 5)) (MD5 cj digest)), rs)
               else if v = 4 then
                 Inr (aesEncryptFn (Some (MD5 cj (digest @ WordArray_create [0x73416c54] 4))) rs)
               else Inr (aesEncryptFn None rs))
         else if v = 5 then Inr (aesEncryptFn (Some (encryptionKey this)) rs)
         else Inl UnsupportedAlgorithm)"

text \<open>
  One invocation of the closure on a buffer. The random source is passed through it
  like through every other call: the closure's body contains no call of
  \<^verbatim>\<open>generateRandomWordArray\<close>, so the source comes back as it went in. A cipher called
  with an unassigned key fails with a \<^verbatim>\<open>TypeError\<close>.
\<close>

definition callEncryptFn ::
  "CryptoJS \<Rightarrow> EncryptFn \<Rightarrow> bytes \<Rightarrow> RandomSource \<Rightarrow> (error + bytes) \<times> RandomSource" where
  "callEncryptFn cj f buffer rs =
     (case f of
        RC4Fn key \<Rightarrow> (Inr (RC4_encrypt cj buffer key), rs)
      | AESFn None iv \<Rightarrow> (Inl TypeError, rs)
      | AESFn (Some key) iv \<Rightarrow> (Inr (iv @ AES_CBC_Pkcs7 cj buffer key iv), rs))"

section \<open>The object graph (\<^verbatim>\<open>PDFContext\<close>)\<close>

subsection \<open>References and objects\<close>

text \<open>
  \<^verbatim>\<open>PDFRef.of(objectNumber, generationNumber = 0)\<close> returns one pooled instance per
  pair of numbers, so a reference used as a \<^verbatim>\<open>Map\<close> key is the pair of its numbers.
  Object numbers are integer-valued JavaScript numbers (IEEE doubles): integers here,
  with the one arithmetic operation the context performs on them, \<^verbatim>\<open>+= 1\<close>, rounded as
  a double rounds it. The sum is exact from \<open>-2^53\<close> up to below \<open>2^53\<close>; beyond, the
  representable integers are even up to magnitude \<open>2^54\<close>, where \<open>n + 1\<close> is a tie that
  goes to the neighbour with the even significand, and further apart above, where
  \<open>n + 1\<close> rounds back to \<open>n\<close>.
\<close>

record PDFRef =
  objectNumber :: int
  generationNumber :: int

definition PDFRef_of :: "int \<Rightarrow> PDFRef" where
  "PDFRef_of n = \<lparr>objectNumber = n, generationNumber = 0\<rparr>"

definition jsIncrement :: "int \<Rightarrow> int" where
  "jsIncrement n =
     (if - (2 ^ 53) \<le> n \<and> n < 2 ^ 53 then n + 1
      else if \<bar>n\<bar> < 2 ^ 54 \<and> odd (n div 2) then n + 2
      else n)"

text \<open>
  The object classes are not under \<^verbatim>\<open>src/\<close>; the variants are those the source tests
  with \<^verbatim>\<open>instanceof\<close>. A name holds the key of its pooled instance, a string and a hex
  string hold what \<^verbatim>\<open>asString()\<close> returns, a dictionary holds its entries in insertion
  order (a \<^verbatim>\<open>Map\<close> from names), and the two stream classes (both \<^verbatim>\<open>instanceof PDFStream\<close>)
  hold their \<^verbatim>\<open>dict\<close> and their contents (bytes, or the names of the operators). Numbers
  other than object numbers are only stored and handed back: they are reals.
\<close>

datatype PDFObject =
  PDFNull
  | PDFBool bool
  | PDFNumber real
  | PDFName string
  | PDFString string
  | PDFHexString string
  | PDFArray "PDFObject list"
  | PDFDict "(string \<times> PDFObject) list"
  | PDFRawStream PDFObject bytes
  | PDFContentStream PDFObject "string list"
  | Ref PDFRef

text \<open>
  What the source calls on these classes and the model cannot read from \<^verbatim>\<open>src/\<close>:
  \<^verbatim>\<open>PDFName.of\<close> (the key of the pooled name for a text), \<^verbatim>\<open>decodeText\<close> (the text of a
  name) and \<^verbatim>\<open>PDFHexString.fromBytes\<close>. They are parameters.
\<close>

record ObjectClasses =
  PDFName_of :: "string \<Rightarrow> string"
  decodeText :: "string \<Rightarrow> string"
  PDFHexString_fromBytes :: "bytes \<Rightarrow> string"

subsection \<open>Native literals, \<^verbatim>\<open>obj\<close> and \<^verbatim>\<open>getLiteral\<close>\<close>

text \<open>
  \<^verbatim>\<open>Literal | PDFObject\<close>: a keyed map (a JavaScript object) is the list of its entries
  in the order of \<^verbatim>\<open>Object.keys\<close>: the keys that are array indices first, in ascending
  numeric order, then the other keys in the order of their creation.
\<close>

datatype Literal =
  LUndefined
  | LNull
  | LString string
  | LNumber real
  | LBoolean bool
  | LUint8Array bytes
  | LArray "Literal list"
  | LObject "(string \<times> Literal) list"
  | LPDFObject PDFObject

text \<open>
  \<^verbatim>\<open>Map.prototype.set\<close> (\<^verbatim>\<open>dict.set(name, value)\<close>, \<^verbatim>\<open>indirectObjects.set(ref, object)\<close>)
  replaces the value of a key that is present and appends a new key otherwise.
\<close>

fun setEntry :: "'k \<Rightarrow> 'v \<Rightarrow> ('k \<times> 'v) list \<Rightarrow> ('k \<times> 'v) list" where
  "setEntry k v [] = [(k, v)]"
| "setEntry k v (p # ps) = (if fst p = k then (k, v) # ps else p # setEntry k v ps)"






fun obj :: "ObjectClasses \<Rightarrow> Literal \<Rightarrow> PDFObject" where
  "obj oc (LPDFObject p) = p"
| "obj oc LNull = PDFNull"
| "obj oc LUndefined = PDFNull"
| "obj oc (LString s) = PDFName (PDFName_of oc s)"
| "obj oc (LNumber n) = PDFNumber n"
| "obj oc (LBoolean b) = (if b then PDFBool True else PDFBool False)"
| "obj oc (LUint8Array b) = PDFHexString (PDFHexString_fromBytes oc b)"
| "obj oc (LArray xs) = PDFArray (map (obj oc) xs)"
| "obj oc (LObject kvs) =
     PDFDict (fold (\<lambda>kv dict. if snd kv \<noteq> LUndefined
                                then setEntry (PDFName_of oc (fst kv)) (obj oc (snd kv)) dict
                                else dict) kvs [])"








subsection \<open>The context\<close>

text \<open>
  The fields of \<^verbatim>\<open>PDFContext\<close> that the operations below read or write.
  \<^verbatim>\<open>indirectObjects\<close> is a \<^verbatim>\<open>Map\<close>: its entries in insertion order, one per key.
  \<^verbatim>\<open>header\<close> is represented by the string that \<^verbatim>\<open>getVersionString()\<close> returns.
\<close>

record PDFContext =
  largestObjectNumber :: int
  header :: string
  indirectObjects :: "(PDFRef \<times> PDFObject) list"
  pushGraphicsStateContentStreamRef :: "PDFRef option"
  popGraphicsStateContentStreamRef :: "PDFRef option"

definition create :: PDFContext where
  "create =
     \<lparr>largestObjectNumber = 0, header = ''1.7'', indirectObjects = [],
      pushGraphicsStateContentStreamRef = None, popGraphicsStateContentStreamRef = None\<rparr>"

definition assign :: "PDFRef \<Rightarrow> PDFObject \<Rightarrow> PDFContext \<Rightarrow> PDFContext" where
  "assign ref object ctx =
     (let ctx = ctx\<lparr>indirectObjects := setEntry ref object (indirectObjects ctx)\<rparr>
      in if objectNumber ref > largestObjectNumber ctx
         then ctx\<lparr>largestObjectNumber := objectNumber ref\<rparr>
         else ctx)"

definition nextRef :: "PDFContext \<Rightarrow> PDFRef \<times> PDFContext" where
  "nextRef ctx =
     (let ctx = ctx\<lparr>largestObjectNumber := jsIncrement (largestObjectNumber ctx)\<rparr>
      in (PDFRef_of (largestObjectNumber ctx), ctx))"

definition register :: "PDFObject \<Rightarrow> PDFContext \<Rightarrow> PDFRef \<times> PDFContext" where
  "register object ctx = (let (ref, ctx) = nextRef ctx in (ref, assign ref object ctx))"

text \<open>\<^verbatim>\<open>Map.prototype.delete\<close> returns whether the key was present.\<close>

definition delete :: "PDFRef \<Rightarrow> PDFContext \<Rightarrow> bool \<times> PDFContext" where
  "delete ref ctx =
     (ref \<in> fst ` set (indirectObjects ctx),
      ctx\<lparr>indirectObjects := filter (\<lambda>e. fst e \<noteq> ref) (indirectObjects ctx)\<rparr>)"

definition byAscendingObjectNumber :: "PDFRef \<times> PDFObject \<Rightarrow> PDFRef \<times> PDFObject \<Rightarrow> int" where
  "byAscendingObjectNumber a b = objectNumber (fst a) - objectNumber (fst b)"

text \<open>
  \<^verbatim>\<open>Array.prototype.sort\<close> with a comparator is a stable sort: an element goes before
  the first element that the comparator puts strictly after it.
\<close>

fun insertSorted :: "('a \<Rightarrow> 'a \<Rightarrow> int) \<Rightarrow> 'a \<Rightarrow> 'a list \<Rightarrow> 'a list" where
  "insertSorted cmp x [] = [x]"
| "insertSorted cmp x (y # ys) =
     (if cmp x y < 0 then x # y # ys else y # insertSorted cmp x ys)"

definition Array_sort :: "('a \<Rightarrow> 'a \<Rightarrow> int) \<Rightarrow> 'a list \<Rightarrow> 'a list" where
  "Array_sort cmp xs = fold (insertSorted cmp) xs []"

definition enumerateIndirectObjects :: "PDFContext \<Rightarrow> (PDFRef \<times> PDFObject) list" where
  "enumerateIndirectObjects ctx = Array_sort byAscendingObjectNumber (indirectObjects ctx)"

text \<open>
  The two memoized content streams. A content stream holds its dictionary and its
  operators; the operators \<^verbatim>\<open>Ops.PushGraphicsState\<close> and \<^verbatim>\<open>Ops.PopGraphicsState\<close> are
  \<^verbatim>\<open>q\<close> and \<^verbatim>\<open>Q\<close>. A reference that is set is truthy.
\<close>

definition getPushGraphicsStateContentStream ::
  "ObjectClasses \<Rightarrow> PDFContext \<Rightarrow> PDFRef \<times> PDFContext" where
  "getPushGraphicsStateContentStream oc ctx =
     (case pushGraphicsStateContentStreamRef ctx of
        Some ref \<Rightarrow> (ref, ctx)
      | None \<Rightarrow>
          (let dict = obj oc (LObject []);
               stream = PDFContentStream dict [''q''];
               (ref, ctx) = register stream ctx
           in (ref, ctx\<lparr>pushGraphicsStateContentStreamRef := Some ref\<rparr>)))"

definition getPopGraphicsStateContentStream ::
  "ObjectClasses \<Rightarrow> PDFContext \<Rightarrow> PDFRef \<times> PDFContext" where
  "getPopGraphicsStateContentStream oc ctx =
     (case popGraphicsStateContentStreamRef ctx of
        Some ref \<Rightarrow> (ref, ctx)
      | None \<Rightarrow>
          (let dict = obj oc (LObject []);
               stream = PDFContentStream dict [''Q''];
               (ref, ctx) = register stream ctx
           in (ref, ctx\<lparr>popGraphicsStateContentStreamRef := Some ref\<rparr>)))"

subsection \<open>Sequences of operations on a context\<close>

datatype Operation =
  Assign PDFRef PDFObject
  | Register PDFObject
  | NextRef
  | Delete PDFRef
  | GetPushGraphicsState
  | GetPopGraphicsState

fun step :: "ObjectClasses \<Rightarrow> Operation \<Rightarrow> PDFContext \<Rightarrow> PDFContext" where
  "step oc (Assign ref object) ctx = assign ref object ctx"
| "step oc (Register object) ctx = snd (register object ctx)"
| "step oc NextRef ctx = snd (nextRef ctx)"
| "step oc (Delete ref) ctx = snd (delete ref ctx)"
| "step oc GetPushGraphicsState ctx = snd (getPushGraphicsStateContentStream oc ctx)"
| "step oc GetPopGraphicsState ctx = snd (getPopGraphicsStateContentStream oc ctx)"

definition run :: "ObjectClasses \<Rightarrow> Operation list \<Rightarrow> PDFContext \<Rightarrow> PDFContext" where
  "run oc ops ctx = fold (step oc) ops ctx"

text \<open>The object numbers that an operation passes to \<^verbatim>\<open>assign\<close>, and those of a run.\<close>

fun assignedBy :: "ObjectClasses \<Rightarrow> Operation \<Rightarrow> PDFContext \<Rightarrow> int list" where
  "assignedBy oc (Assign ref object) ctx = [objectNumber ref]"
| "assignedBy oc (Register object) ctx = [objectNumber (fst (register object ctx))]"
| "assignedBy oc NextRef ctx = []"
| "assignedBy oc (Delete ref) ctx = []"
| "assignedBy oc GetPushGraphicsState ctx =
     (if pushGraphicsStateContentStreamRef ctx = None
      then [objectNumber (fst (getPushGraphicsStateContentStream oc ctx))] else [])"
| "assignedBy oc GetPopGraphicsState ctx =
     (if popGraphicsStateContentStreamRef ctx = None
      then [objectNumber (fst (getPopGraphicsStateContentStream oc ctx))] else [])"

fun assignedNumbers :: "ObjectClasses \<Rightarrow> Operation list \<Rightarrow> PDFContext \<Rightarrow> int list" where
  "assignedNumbers oc [] ctx = []"
| "assignedNumbers oc (op # ops) ctx =
     assignedBy oc op ctx @ assignedNumbers oc ops (step oc op ctx)"

section \<open>Instances for running the model\<close>

text \<open>
  An instance of the primitives with the output sizes of the real ones: digests of 16
  and 32 bytes, ciphers that keep the length of the message, PKCS#7 padding to the next
  multiple of 16. It is not cryptography; it lets the model run on concrete inputs.
\<close>

definition xorLanes :: "nat \<Rightarrow> bytes \<Rightarrow> bytes" where
  "xorLanes n m =
     fold (\<lambda>(i, b) acc. acc[i mod n := acc ! (i mod n) XOR b]) (enumerate 0 m) (replicate n 0)"

definition xorWith :: "bytes \<Rightarrow> bytes \<Rightarrow> bytes" where
  "xorWith m k =
     (if k = [] then m else map (\<lambda>(i, b). b XOR k ! (i mod length k)) (enumerate 0 m))"

definition pkcs7 :: "bytes \<Rightarrow> bytes" where
  "pkcs7 m = (let n = 16 - length m mod 16 in m @ replicate n (of_nat n))"

definition xorPrimitives :: CryptoJS where
  "xorPrimitives =
     \<lparr>MD5 = xorLanes 16, SHA256 = xorLanes 32, RC4_encrypt = xorWith,
      AES_CBC_Pkcs7 = (\<lambda>m k iv. xorWith (xorWith (pkcs7 m) iv) k),
      AES_CBC_NoPadding = (\<lambda>m k iv. xorWith (xorWith m iv) k),
      AES_ECB_NoPadding = xorWith\<rparr>"

text \<open>What the length results below need of the primitives.\<close>

definition outputSizes :: "CryptoJS \<Rightarrow> bool" where
  "outputSizes cj \<longleftrightarrow>
     (\<forall>m. length (SHA256 cj m) = 32) \<and>
     (\<forall>m k iv. length m mod 16 = 0 \<longrightarrow> length (AES_CBC_NoPadding cj m k iv) = length m) \<and>
     (\<forall>m k. length m mod 16 = 0 \<longrightarrow> length (AES_ECB_NoPadding cj m k) = length m)"

text \<open>A random source whose byte at position \<open>k\<close> is \<open>k mod 256\<close>.\<close>

definition countingSource :: RandomSource where
  "countingSource = \<lparr>randomByte = of_nat, cursor = 0\<rparr>"

text \<open>Object classes whose names hold their text unchanged and whose hex strings are
  the two upper-case hex digits of each byte.\<close>

definition hexDigit :: "nat \<Rightarrow> char" where
  "hexDigit d = (''0123456789ABCDEF'') ! d"

definition plainClasses :: ObjectClasses where
  "plainClasses =
     \<lparr>PDFName_of = (\<lambda>s. s), decodeText = (\<lambda>s. s),
      PDFHexString_fromBytes =
        (\<lambda>b. concat (map (\<lambda>x. [hexDigit (unat x div 16), hexDigit (unat x mod 16)]) b))\<rparr>"

text \<open>
  The initial value of \<^verbatim>\<open>flags\<close> in \<^verbatim>\<open>getPermissionsR3\<close>: the reserved bits, which are
  1 whatever the permissions are (bits 7, 8 and 13 to 32).
\<close>

definition reservedBitsR3 :: "32 word" where
  "reservedBitsR3 = 0xfffff0c0"

text \<open>The permission input \<^verbatim>\<open>{printing: "highResolution", modifying: true}\<close>.\<close>

definition highResolutionModifying :: UserPermissions where
  "highResolutionModifying =
     noPermissions\<lparr>printing := Some highResolution, modifying := Some True\<rparr>"

text \<open>
  A password of 33 code units: 32 times \<^verbatim>\<open>a\<close>, then a code unit above 255.
\<close>

definition longPassword :: js_string where
  "longPassword = replicate 32 0x61 @ [0x263A]"

text \<open>The options \<^verbatim>\<open>{userPassword: "foo"}\<close>.\<close>

definition fooOptions :: SecurityOptions where
  "fooOptions =
     \<lparr>ownerPassword = None, userPassword = Some [0x66, 0x6f, 0x6f], permissions = None\<rparr>"

text \<open>Options whose only password is the empty string.\<close>

definition emptyOwnerOptions :: SecurityOptions where
  "emptyOwnerOptions = \<lparr>ownerPassword = Some [], userPassword = None, permissions = None\<rparr>"

text \<open>
  Two invocations in a row of the closure \<open>f\<close> on the same buffer, the random source
  going from the first into the second.
\<close>

definition callTwice ::
  "CryptoJS \<Rightarrow> EncryptFn \<Rightarrow> bytes \<Rightarrow> RandomSource \<Rightarrow> (error + bytes) \<times> (error + bytes)" where
  "callTwice cj f buffer rs =
     (let (c1, rs) = callEncryptFn cj f buffer rs;
          (c2, rs) = callEncryptFn cj f buffer rs
      in (c1, c2))"

text \<open>The smallest integer at which \<^verbatim>\<open>+= 1\<close> no longer counts: \<open>2^53\<close>.\<close>

definition hugeRef :: PDFRef where
  "hugeRef = PDFRef_of 9007199254740992"



section \<open>Permission flags\<close>

text \<open>
  C3, as stated: for \<^verbatim>\<open>{printing: "highResolution", modifying: true}\<close> the word of
  \<^verbatim>\<open>getPermissionsR3\<close> has bits 3, 13 and 4 set, every other bit outside the reserved
  ones clear, and every reserved bit set. This fails: the mask for high-resolution
  printing is \<^verbatim>\<open>0b100000000100\<close>, bits 3 and 12, and bit 12 is neither reserved nor one of
  3, 13, 4 (bit 13 is set, but as a reserved bit of the initial value).
\<close>

theorem getPermissionsR3_highResolution_not_bit13:
  "\<not> (getPermissionsR3 (Some highResolutionModifying)
          AND (permissionBit 3 OR permissionBit 13 OR permissionBit 4)
        = permissionBit 3 OR permissionBit 13 OR permissionBit 4
      \<and> getPermissionsR3 (Some highResolutionModifying)
          AND NOT (reservedBitsR3 OR permissionBit 3 OR permissionBit 13 OR permissionBit 4)
        = 0
      \<and> getPermissionsR3 (Some highResolutionModifying) AND reservedBitsR3 = reservedBitsR3)"
  by (simp add: getPermissionsR3_def orIf_def noPermissions_def permissionBit_def
      reservedBitsR3_def highResolutionModifying_def)

text \<open>
  C3, amended: for \<^verbatim>\<open>{printing: "highResolution", modifying: true}\<close> the word of
  \<^verbatim>\<open>getPermissionsR3\<close> is \<^verbatim>\<open>0xFFFFF8CC\<close>: bits 3 (any printing), 12 (high-resolution
  printing) and 4 (modifying) are set, every other bit outside the reserved ones is
  clear, and every reserved bit (7, 8, 13 to 32) is set.
\<close>

theorem getPermissionsR3_highResolution:
  "getPermissionsR3 (Some highResolutionModifying) = 0xfffff8cc
   \<and> getPermissionsR3 (Some highResolutionModifying)
        AND (permissionBit 3 OR permissionBit 12 OR permissionBit 4)
      = permissionBit 3 OR permissionBit 12 OR permissionBit 4
   \<and> getPermissionsR3 (Some highResolutionModifying)
        AND NOT (reservedBitsR3 OR permissionBit 3 OR permissionBit 12 OR permissionBit 4)
      = 0
   \<and> getPermissionsR3 (Some highResolutionModifying) AND reservedBitsR3 = reservedBitsR3"
  by (simp add: getPermissionsR3_def orIf_def noPermissions_def permissionBit_def
      reservedBitsR3_def highResolutionModifying_def)

section \<open>Legacy password processing\<close>

text \<open>
  The two loops of \<^verbatim>\<open>processPasswordR2R3R4\<close>, by computation induction: what the
  buffer holds when each loop stops.
\<close>

lemma copyPassword_spec:
  "i \<le> min (length p) 32 \<Longrightarrow> length out = 32 \<Longrightarrow>
   copyPassword p i out =
     (if \<forall>k. i \<le> k \<and> k < min (length p) 32 \<longrightarrow> p ! k \<le> 0xff
      then Inr (take i out @ map ucast (take (min (length p) 32 - i) (drop i p)) @ drop (min (length p) 32) out,
                min (length p) 32)
      else Inl InvalidPasswordCharacter)"
proof (induction p i out rule: copyPassword.induct)
  case (1 password index out)
  let ?m = "min (length password) 32"
  show ?case
  proof (cases "index < length password \<and> index < 32")
    case False
    with "1.prems" have eq: "index = ?m" by auto
    have "copyPassword password index out = Inr (out, index)"
      using False by (subst copyPassword.simps) auto
    moreover have "\<forall>k. index \<le> k \<and> k < ?m \<longrightarrow> password ! k \<le> 0xff" using eq by auto
    moreover have "take index out @ map ucast (take (?m - index) (drop index password)) @ drop ?m out = out"
      using eq by simp
    ultimately show ?thesis using eq by simp
  next
    case True
    show ?thesis
    proof (cases "password ! index > 0xff")
      case big: True
      have "copyPassword password index out = Inl InvalidPasswordCharacter"
        using True big by (subst copyPassword.simps) (simp add: Let_def)
      moreover have "\<not> (\<forall>k. index \<le> k \<and> k < ?m \<longrightarrow> password ! k \<le> 0xff)"
        using True big by (auto intro!: exI[of _ index] simp: not_le)
      ultimately show ?thesis by simp
    next
      case small: False
      have step: "copyPassword password index out =
                  copyPassword password (index + 1) (out[index := ucast (password ! index)])"
        using True small by (subst copyPassword.simps) (simp add: Let_def)
      have le: "index + 1 \<le> ?m" using True by auto
      have len: "length (out[index := ucast (password ! index)]) = 32" using "1.prems" by simp
      note IH = "1.IH"[OF True refl small le len]
      have all_eq: "(\<forall>k. index \<le> k \<and> k < ?m \<longrightarrow> password ! k \<le> 0xff) \<longleftrightarrow>
                    (\<forall>k. index + 1 \<le> k \<and> k < ?m \<longrightarrow> password ! k \<le> 0xff)"
      proof
        assume "\<forall>k. index \<le> k \<and> k < ?m \<longrightarrow> password ! k \<le> 0xff"
        then show "\<forall>k. index + 1 \<le> k \<and> k < ?m \<longrightarrow> password ! k \<le> 0xff" by auto
      next
        assume a: "\<forall>k. index + 1 \<le> k \<and> k < ?m \<longrightarrow> password ! k \<le> 0xff"
        show "\<forall>k. index \<le> k \<and> k < ?m \<longrightarrow> password ! k \<le> 0xff"
        proof (intro allI impI)
          fix k assume k: "index \<le> k \<and> k < ?m"
          show "password ! k \<le> 0xff"
          proof (cases "k = index")
            case True then show ?thesis using small by (simp add: not_less)
          next
            case False then show ?thesis using a k by auto
          qed
        qed
      qed
      have lists: "take (index + 1) (out[index := ucast (password ! index)]) @
                   map ucast (take (?m - (index + 1)) (drop (index + 1) password)) @
                   drop ?m (out[index := ucast (password ! index)])
                 = take index out @ map ucast (take (?m - index) (drop index password)) @ drop ?m out"
      proof -
        have i_lt: "index < length out" using True "1.prems" by simp
        have a: "take (index + 1) (out[index := ucast (password ! index)])
                 = take index out @ [ucast (password ! index)]"
          using i_lt by (simp add: take_Suc_conv_app_nth)
        have b: "drop ?m (out[index := ucast (password ! index)]) = drop ?m out"
          using le by simp
        have c: "take (?m - index) (drop index password)
                 = password ! index # take (?m - (index + 1)) (drop (index + 1) password)"
        proof -
          have "drop index password = password ! index # drop (Suc index) password"
            using True by (simp add: Cons_nth_drop_Suc)
          moreover have "?m - index = Suc (?m - (index + 1))" using le by arith
          ultimately show ?thesis by simp
        qed
        show ?thesis by (simp only: a b c) simp
      qed
      show ?thesis unfolding step IH all_eq lists ..
    qed
  qed
qed

lemma padPassword_spec:
  "i \<le> 32 \<Longrightarrow> len \<le> i \<Longrightarrow> length out = 32 \<Longrightarrow>
   padPassword len i out = take i out @ take (32 - i) (drop (i - len) PASSWORD_PADDING)"
proof (induction len i out rule: padPassword.induct)
  case (1 len index out)
  show ?case
  proof (cases "index < 32")
    case False
    then have "padPassword len index out = out" by (subst padPassword.simps) simp
    then show ?thesis using False "1.prems" by simp
  next
    case True
    let ?v = "PASSWORD_PADDING ! (index - len)"
    have step: "padPassword len index out = padPassword len (index + 1) (out[index := ?v])"
      using True "1.prems" by (subst padPassword.simps) simp
    have IH: "padPassword len (index + 1) (out[index := ?v]) =
              take (index + 1) (out[index := ?v]) @ take (32 - (index + 1)) (drop (index + 1 - len) PASSWORD_PADDING)"
      using "1.IH"[OF True] True "1.prems" by simp
    have lp: "length PASSWORD_PADDING = 32" by (simp add: PASSWORD_PADDING_def)
    have a: "take (index + 1) (out[index := ?v]) = take index out @ [?v]"
      using True "1.prems" by (simp add: take_Suc_conv_app_nth)
    have b: "take (32 - index) (drop (index - len) PASSWORD_PADDING)
             = ?v # take (32 - (index + 1)) (drop (index + 1 - len) PASSWORD_PADDING)"
    proof -
      have "index - len < length PASSWORD_PADDING" using True lp by simp
      then have "drop (index - len) PASSWORD_PADDING = ?v # drop (Suc (index - len)) PASSWORD_PADDING"
        by (simp add: Cons_nth_drop_Suc)
      moreover have "32 - index = Suc (32 - (index + 1))" using True by simp
      moreover have "Suc (index - len) = index + 1 - len" using "1.prems" by simp
      ultimately show ?thesis by simp
    qed
    show ?thesis unfolding step IH a b by simp
  qed
qed

lemma processPasswordR2R3R4_spec:
  "processPasswordR2R3R4 pw =
     (if \<forall>c \<in> set (take 32 (orEmpty pw)). c \<le> 0xff
      then Inr (take 32 (map ucast (orEmpty pw) @ PASSWORD_PADDING))
      else Inl InvalidPasswordCharacter)"
proof -
  let ?p = "orEmpty pw"
  let ?m = "min (length ?p) 32"
  have q: "(\<forall>k. 0 \<le> k \<and> k < ?m \<longrightarrow> ?p ! k \<le> 0xff) \<longleftrightarrow> (\<forall>c \<in> set (take 32 ?p). c \<le> 0xff)"
  proof
    assume a: "\<forall>k. 0 \<le> k \<and> k < ?m \<longrightarrow> ?p ! k \<le> 0xff"
    show "\<forall>c \<in> set (take 32 ?p). c \<le> 0xff"
    proof
      fix c assume "c \<in> set (take 32 ?p)"
      then obtain k where "k < length (take 32 ?p)" "take 32 ?p ! k = c"
        by (auto simp: in_set_conv_nth)
      then show "c \<le> 0xff" using a by auto
    qed
  next
    assume a: "\<forall>c \<in> set (take 32 ?p). c \<le> 0xff"
    show "\<forall>k. 0 \<le> k \<and> k < ?m \<longrightarrow> ?p ! k \<le> 0xff"
    proof (intro allI impI)
      fix k assume k: "0 \<le> k \<and> k < ?m"
      then have "take 32 ?p ! k \<in> set (take 32 ?p)" by (intro nth_mem) simp
      then show "?p ! k \<le> 0xff" using a k by auto
    qed
  qed
  have cp: "copyPassword ?p 0 (replicate 32 0) =
     (if \<forall>c \<in> set (take 32 ?p). c \<le> 0xff
      then Inr (map ucast (take ?m ?p) @ drop ?m (replicate 32 0), ?m)
      else Inl InvalidPasswordCharacter)"
    using copyPassword_spec[of 0 ?p "replicate 32 0"] unfolding q by simp
  have pad: "padPassword (length ?p) ?m (map ucast (take ?m ?p) @ drop ?m (replicate 32 0))
             = take 32 (map ucast ?p @ PASSWORD_PADDING)"
  proof (cases "length ?p < 32")
    case True
    then have m: "?m = length ?p" by simp
    have "padPassword (length ?p) (length ?p) (map ucast (take (length ?p) ?p) @ drop (length ?p) (replicate 32 0))
          = take (length ?p) (map ucast (take (length ?p) ?p) @ drop (length ?p) (replicate 32 0))
            @ take (32 - length ?p) (drop (length ?p - length ?p) PASSWORD_PADDING)"
      using True by (intro padPassword_spec) auto
    then show ?thesis unfolding m using True by simp
  next
    case False
    then have m: "?m = 32" by simp
    have "padPassword (length ?p) 32 (map ucast (take 32 ?p) @ drop 32 (replicate 32 0))
          = map ucast (take 32 ?p) @ drop 32 (replicate 32 0)"
      by (subst padPassword.simps) simp
    then show ?thesis unfolding m using False by (simp add: take_map)
  qed
  show ?thesis
    unfolding processPasswordR2R3R4_def Let_def cp using pad by simp
qed

text \<open>
  C10: \<^verbatim>\<open>processPasswordR2R3R4\<close> returns exactly 32 bytes whenever it returns; it fails
  exactly when one of the first 32 code units of the password is above 255, and then
  with the invalid-character error; a password whose first 32 code units are all at most
  255 never fails; and the code units from index 32 on are never looked at: the result
  is that of the password cut to 32 code units.
\<close>

theorem processPasswordR2R3R4_first_32:
  "(\<forall>out. processPasswordR2R3R4 pw = Inr out \<longrightarrow> length out = 32)
   \<and> ((\<exists>e. processPasswordR2R3R4 pw = Inl e) \<longleftrightarrow> (\<exists>c \<in> set (take 32 (orEmpty pw)). c > 0xff))
   \<and> (\<forall>e. processPasswordR2R3R4 pw = Inl e \<longrightarrow> e = InvalidPasswordCharacter)
   \<and> ((\<forall>c \<in> set (take 32 (orEmpty pw)). c \<le> 0xff)
        \<longrightarrow> (\<exists>out. processPasswordR2R3R4 pw = Inr out \<and> length out = 32))
   \<and> processPasswordR2R3R4 pw = processPasswordR2R3R4 (Some (take 32 (orEmpty pw)))"
proof -
  have len: "length (take 32 (map ucast (orEmpty pw) @ PASSWORD_PADDING) :: bytes) = 32"
    by (simp add: PASSWORD_PADDING_def)
  have cut: "take 32 (map ucast (take 32 (orEmpty pw)) @ PASSWORD_PADDING)
             = (take 32 (map ucast (orEmpty pw) @ PASSWORD_PADDING) :: bytes)"
    by (simp add: take_map min_def)
  have same: "processPasswordR2R3R4 pw = processPasswordR2R3R4 (Some (take 32 (orEmpty pw)))"
    unfolding processPasswordR2R3R4_spec [of pw]
      processPasswordR2R3R4_spec [of "Some (take 32 (orEmpty pw))"]
    using cut by (simp add: orEmpty_def)
  have rest: "(\<forall>out. processPasswordR2R3R4 pw = Inr out \<longrightarrow> length out = 32)
   \<and> ((\<exists>e. processPasswordR2R3R4 pw = Inl e) \<longleftrightarrow> (\<exists>c \<in> set (take 32 (orEmpty pw)). c > 0xff))
   \<and> (\<forall>e. processPasswordR2R3R4 pw = Inl e \<longrightarrow> e = InvalidPasswordCharacter)
   \<and> ((\<forall>c \<in> set (take 32 (orEmpty pw)). c \<le> 0xff)
        \<longrightarrow> (\<exists>out. processPasswordR2R3R4 pw = Inr out \<and> length out = 32))"
  proof (cases "\<forall>c \<in> set (take 32 (orEmpty pw)). c \<le> 0xff")
    case True
    then have r: "processPasswordR2R3R4 pw = Inr (take 32 (map ucast (orEmpty pw) @ PASSWORD_PADDING))"
      by (simp add: processPasswordR2R3R4_spec)
    have "\<not> (\<exists>c \<in> set (take 32 (orEmpty pw)). c > 0xff)" using True by (auto simp: not_less)
    then show ?thesis using True len unfolding r by auto
  next
    case False
    then have r: "processPasswordR2R3R4 pw = Inl InvalidPasswordCharacter"
      by (simp add: processPasswordR2R3R4_spec)
    have "\<exists>c \<in> set (take 32 (orEmpty pw)). c > 0xff" using False by (auto simp: not_le)
    then show ?thesis using False unfolding r by auto
  qed
  show ?thesis using rest same by blast
qed

theorem processPasswordR2R3R4_first_32_witness:
  "list_all (\<lambda>c. c \<le> 0xff) (take 32 longPassword)
   \<and> \<not> list_all (\<lambda>c. c \<le> 0xff) longPassword
   \<and> (\<exists>out. processPasswordR2R3R4 (Some longPassword) = Inr out \<and> length out = 32)"
proof -
  have h: "\<forall>c \<in> set (take 32 (orEmpty (Some longPassword))). c \<le> 0xff"
    by (simp add: orEmpty_def longPassword_def)
  have "\<exists>out. processPasswordR2R3R4 (Some longPassword) = Inr out \<and> length out = 32"
    using processPasswordR2R3R4_first_32 [of "Some longPassword"] h by blast
  then show ?thesis by (simp add: longPassword_def list_all_iff)
qed

section \<open>The security handler\<close>

lemma length_generateRandomWordArray [simp]:
  "length (fst (generateRandomWordArray n rs)) = n"
  by (simp add: generateRandomWordArray_def)

lemma length_WordArray_create [simp]: "length (WordArray_create ws n) = n"
  by (simp add: WordArray_create_def)

lemma length_wordsSlice [simp]: "length (wordsSlice wa a b n) = n"
  by (simp add: wordsSlice_def)

lemma length_getUserPasswordR5:
  "outputSizes cj \<Longrightarrow> length (fst (getUserPasswordR5 cj pw rs)) = 48"
  by (simp add: getUserPasswordR5_def outputSizes_def split_def Let_def)

lemma length_getOwnerPasswordR5:
  "outputSizes cj \<Longrightarrow> length (fst (getOwnerPasswordR5 cj pw u rs)) = 48"
  by (simp add: getOwnerPasswordR5_def outputSizes_def split_def Let_def)

lemma length_getEncryptionKeyR5: "length (fst (getEncryptionKeyR5 rs)) = 32"
  by (simp add: getEncryptionKeyR5_def)

lemma length_getUserEncryptionKeyR5:
  "outputSizes cj \<Longrightarrow> length key = 32 \<Longrightarrow> length (getUserEncryptionKeyR5 cj pw salt key) = 32"
  by (simp add: getUserEncryptionKeyR5_def outputSizes_def Let_def)

lemma length_getOwnerEncryptionKeyR5:
  "outputSizes cj \<Longrightarrow> length key = 32 \<Longrightarrow> length (getOwnerEncryptionKeyR5 cj pw salt u key) = 32"
  by (simp add: getOwnerEncryptionKeyR5_def outputSizes_def Let_def)

lemma length_getEncryptedPermissionsR5:
  "outputSizes cj \<Longrightarrow> length (fst (getEncryptedPermissionsR5 cj p key rs)) = 16"
  by (simp add: getEncryptedPermissionsR5_def outputSizes_def split_def Let_def)

text \<open>The entries that \<^verbatim>\<open>initializeV5\<close> builds, and their lengths.\<close>

lemma initializeV5_entries:
  assumes "outputSizes cj"
  shows "\<exists>e bits key rs'. initializeV5 cj options rs = ((e, bits, key), rs')
     \<and> encV e = 5 \<and> encR e = 5 \<and> bits = 256 \<and> length key = 32
     \<and> length (encO e) = 48 \<and> length (encU e) = 48
     \<and> (\<exists>oe. encOE e = Some oe \<and> length oe = 32)
     \<and> (\<exists>ue. encUE e = Some ue \<and> length ue = 32)
     \<and> (\<exists>p. encPerms e = Some p \<and> length p = 16)"
  using assms
  by (simp add: initializeV5_def split_def Let_def length_getUserPasswordR5
      length_getOwnerPasswordR5 length_getEncryptionKeyR5 length_getUserEncryptionKeyR5
      length_getOwnerEncryptionKeyR5 length_getEncryptedPermissionsR5)

lemma algorithmForVersion_ext3 [simp]: "algorithmForVersion ''1.7ext3'' = Alg5"
  by (simp add: algorithmForVersion_def)

text \<open>
  C9: for the version string \<^verbatim>\<open>1.7ext3\<close> and options with a password (without one the
  constructor throws), the constructor returns a handler whose dictionary has
  \<^verbatim>\<open>V = 5\<close> and \<^verbatim>\<open>R = 5\<close>, a \<^verbatim>\<open>Perms\<close> entry of 16 bytes, \<^verbatim>\<open>OE\<close> and \<^verbatim>\<open>UE\<close> entries of
  32 bytes and \<^verbatim>\<open>O\<close> and \<^verbatim>\<open>U\<close> entries of 48 bytes, given primitives with the output
  sizes of SHA-256 and of AES without padding.
\<close>

theorem create_ext3_entries:
  assumes "outputSizes cj"
    and "truthyString (ownerPassword options) \<or> truthyString (userPassword options)"
  shows "\<exists>h rs'. PDFSecurity_create cj ''1.7ext3'' now options rs = Inr (h, rs')
     \<and> encV (encryption h) = 5 \<and> encR (encryption h) = 5
     \<and> (\<exists>p. encPerms (encryption h) = Some p \<and> length p = 16)
     \<and> (\<exists>oe. encOE (encryption h) = Some oe \<and> length oe = 32)
     \<and> (\<exists>ue. encUE (encryption h) = Some ue \<and> length ue = 32)
     \<and> length (encO (encryption h)) = 48 \<and> length (encU (encryption h)) = 48"
proof -
  obtain e bits key rs' where i: "initializeV5 cj options rs = ((e, bits, key), rs')"
    and e: "encV e = 5" "encR e = 5" "length (encO e) = 48" "length (encU e) = 48"
      "\<exists>oe. encOE e = Some oe \<and> length oe = 32"
      "\<exists>ue. encUE e = Some ue \<and> length ue = 32"
      "\<exists>p. encPerms e = Some p \<and> length p = 16"
    using initializeV5_entries [OF assms(1), of options rs] by blast
  have "PDFSecurity_create cj ''1.7ext3'' now options rs =
          Inr (\<lparr>fileID = generateFileID cj now, encryption = e, keyBits = bits,
                encryptionKey = key\<rparr>, rs')"
    using assms(2) i by (simp add: PDFSecurity_create_def initialize_def Let_def)
  then show ?thesis using e by simp
qed

lemma length_xorLanes_fold:
  "length (fold (\<lambda>(i, b) acc. acc[i mod n := acc ! (i mod n) XOR b]) ps acc) = length acc"
  by (induction ps arbitrary: acc) (auto simp: split_def)

lemma length_xorLanes [simp]: "length (xorLanes n m) = n"
  by (simp add: xorLanes_def length_xorLanes_fold)

lemma length_xorWith [simp]: "length (xorWith m k) = length m"
  by (simp add: xorWith_def)

lemma outputSizes_xorPrimitives: "outputSizes xorPrimitives"
  by (simp add: outputSizes_def xorPrimitives_def)

theorem create_ext3_entries_witness:
  "outputSizes xorPrimitives
   \<and> truthyString (userPassword fooOptions)
   \<and> (\<exists>h rs'. PDFSecurity_create xorPrimitives ''1.7ext3'' 0 fooOptions countingSource = Inr (h, rs')
     \<and> encV (encryption h) = 5 \<and> encR (encryption h) = 5
     \<and> (\<exists>p. encPerms (encryption h) = Some p \<and> length p = 16)
     \<and> (\<exists>oe. encOE (encryption h) = Some oe \<and> length oe = 32)
     \<and> (\<exists>ue. encUE (encryption h) = Some ue \<and> length ue = 32)
     \<and> length (encO (encryption h)) = 48 \<and> length (encU (encryption h)) = 48)"
proof -
  have t: "truthyString (ownerPassword fooOptions) \<or> truthyString (userPassword fooOptions)"
    by (simp add: fooOptions_def)
  show ?thesis
    using create_ext3_entries [OF outputSizes_xorPrimitives t, of 0 countingSource]
      outputSizes_xorPrimitives
    by (simp add: fooOptions_def)
qed

section \<open>Construction of the handler\<close>

lemma processPasswordR2R3R4_errors:
  "processPasswordR2R3R4 pw = Inl e \<Longrightarrow> e = InvalidPasswordCharacter"
  by (simp add: processPasswordR2R3R4_spec split: if_splits)

lemma processPasswordR2R3R4_None:
  "processPasswordR2R3R4 None = Inr PASSWORD_PADDING"
  by (simp add: processPasswordR2R3R4_spec orEmpty_def PASSWORD_PADDING_def)

text \<open>
  The legacy path either throws the invalid-character error or returns every entry it
  derived: the revision and the permission word of the algorithm, the owner entry, the
  key derived from it and from the file identifier, and the user entry.
\<close>

lemma initializeV1V2V4_result:
  assumes "v \<noteq> Alg5"
  shows "initializeV1V2V4 cj docId v options = Inl InvalidPasswordCharacter
     \<or> (\<exists>e bits key pu po. initializeV1V2V4 cj docId v options = Inr (e, bits, key)
          \<and> encV e = algorithmNumber v
          \<and> bits = (if v = Alg1 then 40 else 128)
          \<and> processPasswordR2R3R4 (userPassword options) = Inr pu
          \<and> (if truthyString (ownerPassword options)
              then processPasswordR2R3R4 (ownerPassword options) else Inr pu) = Inr po
          \<and> encR e = (if v = Alg1 then 2 else if v = Alg2 then 3 else 4)
          \<and> encP e = (if v = Alg1 then getPermissionsR2 (permissions options)
                       else getPermissionsR3 (permissions options))
          \<and> encO e = getOwnerPasswordR2R3R4 cj (encR e) bits pu po
          \<and> key = getEncryptionKeyR2R3R4 cj (encR e) bits docId pu (encO e) (encP e)
          \<and> (if encR e = 2 then getUserPasswordR2 cj key
              else getUserPasswordR3R4 cj docId key) = Inr (encU e))"
proof -
  obtain r bits perms where rv: "revisionFor v (permissions options) = Inr (r, bits, perms)"
    and b: "bits = (if v = Alg1 then 40 else 128)"
    and r: "r = (if v = Alg1 then 2 else if v = Alg2 then 3 else 4)"
    and p: "perms = (if v = Alg1 then getPermissionsR2 (permissions options)
                       else getPermissionsR3 (permissions options))"
    using assms by (cases v) auto
  show ?thesis
  proof (cases "processPasswordR2R3R4 (userPassword options)")
    case (Inl e)
    then show ?thesis
      using rv processPasswordR2R3R4_errors [OF Inl] by (simp add: initializeV1V2V4_def)
  next
    case u: (Inr pu)
    show ?thesis
    proof (cases "if truthyString (ownerPassword options)
                  then processPasswordR2R3R4 (ownerPassword options) else Inr pu")
      case (Inl e)
      then have "e = InvalidPasswordCharacter"
        using processPasswordR2R3R4_errors by (auto split: if_splits)
      then show ?thesis using rv u Inl by (simp add: initializeV1V2V4_def)
    next
      case o: (Inr po)
      let ?O = "getOwnerPasswordR2R3R4 cj r bits pu po"
      let ?key = "getEncryptionKeyR2R3R4 cj r bits docId pu ?O perms"
      have "\<exists>ue. (if r = 2 then getUserPasswordR2 cj ?key
                 else getUserPasswordR3R4 cj docId ?key) = Inr ue"
        by (simp add: getUserPasswordR2_def getUserPasswordR3R4_def processPasswordR2R3R4_None
            Let_def)
      then obtain ue where ue: "(if r = 2 then getUserPasswordR2 cj ?key
                            else getUserPasswordR3R4 cj docId ?key) = Inr ue"
        by blast
      have "\<exists>e. initializeV1V2V4 cj docId v options = Inr (e, bits, ?key)
               \<and> encV e = algorithmNumber v \<and> encR e = r \<and> encP e = perms
               \<and> encO e = ?O \<and> encU e = ue"
        using rv u o ue by (simp add: initializeV1V2V4_def Let_def)
      then obtain e where e: "initializeV1V2V4 cj docId v options = Inr (e, bits, ?key)"
        "encV e = algorithmNumber v" "encR e = r" "encP e = perms" "encO e = ?O" "encU e = ue"
        by blast
      have "initializeV1V2V4 cj docId v options = Inr (e, bits, ?key)
          \<and> encV e = algorithmNumber v
          \<and> bits = (if v = Alg1 then 40 else 128)
          \<and> processPasswordR2R3R4 (userPassword options) = Inr pu
          \<and> (if truthyString (ownerPassword options)
              then processPasswordR2R3R4 (ownerPassword options) else Inr pu) = Inr po
          \<and> encR e = (if v = Alg1 then 2 else if v = Alg2 then 3 else 4)
          \<and> encP e = (if v = Alg1 then getPermissionsR2 (permissions options)
                       else getPermissionsR3 (permissions options))
          \<and> encO e = getOwnerPasswordR2R3R4 cj (encR e) bits pu po
          \<and> ?key = getEncryptionKeyR2R3R4 cj (encR e) bits docId pu (encO e) (encP e)
          \<and> (if encR e = 2 then getUserPasswordR2 cj ?key
              else getUserPasswordR3R4 cj docId ?key) = Inr (encU e)"
        using e b u o ue r p by simp
      then show ?thesis by blast
    qed
  qed
qed

text \<open>
  The revision-5 path never throws; it returns the key it drew and every entry it
  derived from it, the random source threaded through the derivations in their order.
\<close>

lemma initializeV5_result:
  "\<exists>e key rs1 rs2 rs3 rs'.
     initializeV5 cj options rs = ((e, 256, key), rs')
     \<and> getEncryptionKeyR5 rs = (key, rs1)
     \<and> getUserPasswordR5 cj (processPasswordR5 (userPassword options)) rs1 = (encU e, rs2)
     \<and> getOwnerPasswordR5 cj
          (if truthyString (ownerPassword options) then processPasswordR5 (ownerPassword options)
           else processPasswordR5 (userPassword options)) (encU e) rs2 = (encO e, rs3)
     \<and> encV e = 5 \<and> encR e = 5
     \<and> encP e = getPermissionsR3 (permissions options)
     \<and> encUE e = Some (getUserEncryptionKeyR5 cj (processPasswordR5 (userPassword options))
                         (wordsSlice (encU e) 10 12 8) key)
     \<and> encOE e = Some (getOwnerEncryptionKeyR5 cj
                         (if truthyString (ownerPassword options)
                          then processPasswordR5 (ownerPassword options)
                          else processPasswordR5 (userPassword options))
                         (wordsSlice (encO e) 10 12 8) (encU e) key)
     \<and> (\<exists>p. encPerms e = Some p
            \<and> getEncryptedPermissionsR5 cj (encP e) key rs3 = (p, rs'))"
proof -
  let ?pu = "processPasswordR5 (userPassword options)"
  let ?po = "if truthyString (ownerPassword options) then processPasswordR5 (ownerPassword options)
             else processPasswordR5 (userPassword options)"
  obtain key rs1 where k: "getEncryptionKeyR5 rs = (key, rs1)" by (metis prod.exhaust)
  obtain u rs2 where u: "getUserPasswordR5 cj ?pu rs1 = (u, rs2)" by (metis prod.exhaust)
  obtain ow rs3 where ow: "getOwnerPasswordR5 cj ?po u rs2 = (ow, rs3)" by (metis prod.exhaust)
  obtain p rs' where
    p: "getEncryptedPermissionsR5 cj (getPermissionsR3 (permissions options)) key rs3 = (p, rs')"
    by (metis prod.exhaust)
  have "\<exists>e. initializeV5 cj options rs = ((e, 256, key), rs')
     \<and> encU e = u \<and> encO e = ow \<and> encV e = 5 \<and> encR e = 5
     \<and> encP e = getPermissionsR3 (permissions options)
     \<and> encUE e = Some (getUserEncryptionKeyR5 cj ?pu (wordsSlice u 10 12 8) key)
     \<and> encOE e = Some (getOwnerEncryptionKeyR5 cj ?po (wordsSlice ow 10 12 8) u key)
     \<and> encPerms e = Some p"
    using k u ow p by (simp add: initializeV5_def Let_def)
  then obtain e where e: "initializeV5 cj options rs = ((e, 256, key), rs')"
     "encU e = u" "encO e = ow" "encV e = 5" "encR e = 5"
     "encP e = getPermissionsR3 (permissions options)"
     "encUE e = Some (getUserEncryptionKeyR5 cj ?pu (wordsSlice u 10 12 8) key)"
     "encOE e = Some (getOwnerEncryptionKeyR5 cj ?po (wordsSlice ow 10 12 8) u key)"
     "encPerms e = Some p"
    by blast
  show ?thesis
    using e k u ow p
    by (intro exI [of _ e] exI [of _ key] exI [of _ rs1] exI [of _ rs2] exI [of _ rs3]
        exI [of _ rs']) simp
qed

text \<open>
  C8, as stated: the constructor fails with the configuration error exactly when
  neither password is supplied. This fails for a password supplied as the empty string:
  the guard \<^verbatim>\<open>!options.ownerPassword && !options.userPassword\<close> tests truthiness.
\<close>

theorem create_empty_password_fails:
  "ownerPassword emptyOwnerOptions \<noteq> None
   \<and> PDFSecurity_create xorPrimitives ''1.7'' 0 emptyOwnerOptions countingSource
       = Inl ConfigurationError"
  by (simp add: emptyOwnerOptions_def PDFSecurity_create_def)

text \<open>
  C8, amended: the constructor fails with the configuration error exactly when neither
  a non-empty owner password nor a non-empty user password is supplied. When one is
  supplied, the constructor either throws the invalid-character error (legacy path) and
  returns no handler, or returns a handler for which all derivation has been done: it
  holds the file identifier (the MD5 of the clock reading), the algorithm version and
  key length of the document's version and,
  \<^item> on the revision-5 path (\<^verbatim>\<open>1.7ext3\<close>), the key drawn from the random source, the user
    and owner entries derived from the processed passwords, \<^verbatim>\<open>UE\<close> and \<^verbatim>\<open>OE\<close> (the key
    wrapped under the hashes of the passwords and the key salts), the permission word
    and the encrypted \<^verbatim>\<open>Perms\<close> block, the random source advanced by every draw;
  \<^item> on the legacy path, the revision and permission word of the algorithm, the owner
    entry derived from the padded passwords, the key derived from the padded user
    password, the owner entry, the permissions and the file identifier, and the user
    entry derived from that key, the random source untouched.
\<close>

theorem create_fails_without_password:
  "(PDFSecurity_create cj version now options rs = Inl ConfigurationError
      \<longleftrightarrow> \<not> truthyString (ownerPassword options) \<and> \<not> truthyString (userPassword options))
   \<and> (truthyString (ownerPassword options) \<or> truthyString (userPassword options) \<longrightarrow>
        PDFSecurity_create cj version now options rs = Inl InvalidPasswordCharacter
        \<or> (\<exists>h rs'. PDFSecurity_create cj version now options rs = Inr (h, rs')
             \<and> fileID h = generateFileID cj now
             \<and> encV (encryption h) = algorithmNumber (algorithmForVersion version)
             \<and> keyBits h = (if algorithmForVersion version = Alg1 then 40
                             else if algorithmForVersion version = Alg5 then 256 else 128)
             \<and> (if algorithmForVersion version = Alg5 then
                   (\<exists>rs1 rs2 rs3.
                      getEncryptionKeyR5 rs = (encryptionKey h, rs1)
                    \<and> getUserPasswordR5 cj (processPasswordR5 (userPassword options)) rs1
                        = (encU (encryption h), rs2)
                    \<and> getOwnerPasswordR5 cj
                         (if truthyString (ownerPassword options)
                          then processPasswordR5 (ownerPassword options)
                          else processPasswordR5 (userPassword options))
                         (encU (encryption h)) rs2
                        = (encO (encryption h), rs3)
                    \<and> encR (encryption h) = 5
                    \<and> encP (encryption h) = getPermissionsR3 (permissions options)
                    \<and> encUE (encryption h)
                        = Some (getUserEncryptionKeyR5 cj
                                  (processPasswordR5 (userPassword options))
                                  (wordsSlice (encU (encryption h)) 10 12 8) (encryptionKey h))
                    \<and> encOE (encryption h)
                        = Some (getOwnerEncryptionKeyR5 cj
                                  (if truthyString (ownerPassword options)
                                   then processPasswordR5 (ownerPassword options)
                                   else processPasswordR5 (userPassword options))
                                  (wordsSlice (encO (encryption h)) 10 12 8)
                                  (encU (encryption h)) (encryptionKey h))
                    \<and> (\<exists>p. encPerms (encryption h) = Some p
                           \<and> getEncryptedPermissionsR5 cj (encP (encryption h))
                               (encryptionKey h) rs3 = (p, rs')))
                 else
                   (\<exists>pu po.
                      rs' = rs
                    \<and> processPasswordR2R3R4 (userPassword options) = Inr pu
                    \<and> (if truthyString (ownerPassword options)
                        then processPasswordR2R3R4 (ownerPassword options) else Inr pu) = Inr po
                    \<and> encR (encryption h)
                        = (if algorithmForVersion version = Alg1 then 2
                           else if algorithmForVersion version = Alg2 then 3 else 4)
                    \<and> encP (encryption h)
                        = (if algorithmForVersion version = Alg1
                           then getPermissionsR2 (permissions options)
                           else getPermissionsR3 (permissions options))
                    \<and> encO (encryption h)
                        = getOwnerPasswordR2R3R4 cj (encR (encryption h)) (keyBits h) pu po
                    \<and> encryptionKey h
                        = getEncryptionKeyR2R3R4 cj (encR (encryption h)) (keyBits h) (fileID h)
                            pu (encO (encryption h)) (encP (encryption h))
                    \<and> (if encR (encryption h) = 2
                        then getUserPasswordR2 cj (encryptionKey h)
                        else getUserPasswordR3R4 cj (fileID h) (encryptionKey h))
                        = Inr (encU (encryption h))))))"
proof (cases "truthyString (ownerPassword options) \<or> truthyString (userPassword options)")
  case False
  then show ?thesis by (simp add: PDFSecurity_create_def)
next
  case True
  then have c: "PDFSecurity_create cj version now options rs = initialize cj version now options rs"
    by (auto simp: PDFSecurity_create_def)
  show ?thesis
  proof (cases "algorithmForVersion version = Alg5")
    case v5: True
    from initializeV5_result [of cj options rs]
    obtain e key rs1 rs2 rs3 rs' where
      i: "initializeV5 cj options rs = ((e, 256, key), rs')"
      and d: "getEncryptionKeyR5 rs = (key, rs1)"
        "getUserPasswordR5 cj (processPasswordR5 (userPassword options)) rs1 = (encU e, rs2)"
        "getOwnerPasswordR5 cj
          (if truthyString (ownerPassword options) then processPasswordR5 (ownerPassword options)
           else processPasswordR5 (userPassword options)) (encU e) rs2 = (encO e, rs3)"
        "encV e = 5" "encR e = 5"
        "encP e = getPermissionsR3 (permissions options)"
        "encUE e = Some (getUserEncryptionKeyR5 cj (processPasswordR5 (userPassword options))
                         (wordsSlice (encU e) 10 12 8) key)"
        "encOE e = Some (getOwnerEncryptionKeyR5 cj
                         (if truthyString (ownerPassword options)
                          then processPasswordR5 (ownerPassword options)
                          else processPasswordR5 (userPassword options))
                         (wordsSlice (encO e) 10 12 8) (encU e) key)"
        "\<exists>p. encPerms e = Some p \<and> getEncryptedPermissionsR5 cj (encP e) key rs3 = (p, rs')"
      by blast
    let ?h = "\<lparr>fileID = generateFileID cj now, encryption = e, keyBits = 256,
               encryptionKey = key\<rparr>"
    have r: "PDFSecurity_create cj version now options rs = Inr (?h, rs')"
      unfolding c using v5 i by (simp add: initialize_def Let_def)
    have "\<exists>rs1 rs2 rs3.
            getEncryptionKeyR5 rs = (encryptionKey ?h, rs1)
          \<and> getUserPasswordR5 cj (processPasswordR5 (userPassword options)) rs1
              = (encU (encryption ?h), rs2)
          \<and> getOwnerPasswordR5 cj
               (if truthyString (ownerPassword options)
                then processPasswordR5 (ownerPassword options)
                else processPasswordR5 (userPassword options))
               (encU (encryption ?h)) rs2
              = (encO (encryption ?h), rs3)
          \<and> encR (encryption ?h) = 5
          \<and> encP (encryption ?h) = getPermissionsR3 (permissions options)
          \<and> encUE (encryption ?h)
              = Some (getUserEncryptionKeyR5 cj
                        (processPasswordR5 (userPassword options))
                        (wordsSlice (encU (encryption ?h)) 10 12 8) (encryptionKey ?h))
          \<and> encOE (encryption ?h)
              = Some (getOwnerEncryptionKeyR5 cj
                        (if truthyString (ownerPassword options)
                         then processPasswordR5 (ownerPassword options)
                         else processPasswordR5 (userPassword options))
                        (wordsSlice (encO (encryption ?h)) 10 12 8)
                        (encU (encryption ?h)) (encryptionKey ?h))
          \<and> (\<exists>p. encPerms (encryption ?h) = Some p
                 \<and> getEncryptedPermissionsR5 cj (encP (encryption ?h))
                     (encryptionKey ?h) rs3 = (p, rs'))"
      using d by auto
    then show ?thesis using True v5 r d(4) by auto
  next
    case not5: False
    let ?v = "algorithmForVersion version"
    let ?id = "generateFileID cj now"
    from initializeV1V2V4_result [OF not5, of cj ?id options]
    show ?thesis
    proof
      assume "initializeV1V2V4 cj ?id ?v options = Inl InvalidPasswordCharacter"
      then have "PDFSecurity_create cj version now options rs = Inl InvalidPasswordCharacter"
        using not5 unfolding c by (simp add: initialize_def Let_def)
      then show ?thesis using True by simp
    next
      assume "\<exists>e bits key pu po. initializeV1V2V4 cj ?id ?v options = Inr (e, bits, key)
          \<and> encV e = algorithmNumber ?v
          \<and> bits = (if ?v = Alg1 then 40 else 128)
          \<and> processPasswordR2R3R4 (userPassword options) = Inr pu
          \<and> (if truthyString (ownerPassword options)
              then processPasswordR2R3R4 (ownerPassword options) else Inr pu) = Inr po
          \<and> encR e = (if ?v = Alg1 then 2 else if ?v = Alg2 then 3 else 4)
          \<and> encP e = (if ?v = Alg1 then getPermissionsR2 (permissions options)
                       else getPermissionsR3 (permissions options))
          \<and> encO e = getOwnerPasswordR2R3R4 cj (encR e) bits pu po
          \<and> key = getEncryptionKeyR2R3R4 cj (encR e) bits ?id pu (encO e) (encP e)
          \<and> (if encR e = 2 then getUserPasswordR2 cj key
              else getUserPasswordR3R4 cj ?id key) = Inr (encU e)"
      then obtain e bits key pu po where
        i: "initializeV1V2V4 cj ?id ?v options = Inr (e, bits, key)"
        and d: "encV e = algorithmNumber ?v"
          "bits = (if ?v = Alg1 then 40 else 128)"
          "processPasswordR2R3R4 (userPassword options) = Inr pu"
          "(if truthyString (ownerPassword options)
              then processPasswordR2R3R4 (ownerPassword options) else Inr pu) = Inr po"
          "encR e = (if ?v = Alg1 then 2 else if ?v = Alg2 then 3 else 4)"
          "encP e = (if ?v = Alg1 then getPermissionsR2 (permissions options)
                       else getPermissionsR3 (permissions options))"
          "encO e = getOwnerPasswordR2R3R4 cj (encR e) bits pu po"
          "key = getEncryptionKeyR2R3R4 cj (encR e) bits ?id pu (encO e) (encP e)"
          "(if encR e = 2 then getUserPasswordR2 cj key
              else getUserPasswordR3R4 cj ?id key) = Inr (encU e)"
        by blast
      define h where "h = \<lparr>fileID = ?id, encryption = e, keyBits = bits, encryptionKey = key\<rparr>"
      have r: "PDFSecurity_create cj version now options rs = Inr (h, rs)"
        unfolding c h_def using not5 i by (simp add: initialize_def Let_def)
      have f: "fileID h = ?id" "encV (encryption h) = algorithmNumber ?v"
        "keyBits h = (if ?v = Alg1 then 40 else if ?v = Alg5 then 256 else 128)"
        using d(1,2) not5 by (simp_all add: h_def)
      have L: "\<exists>pu po.
              rs = rs
            \<and> processPasswordR2R3R4 (userPassword options) = Inr pu
            \<and> (if truthyString (ownerPassword options)
                then processPasswordR2R3R4 (ownerPassword options) else Inr pu) = Inr po
            \<and> encR (encryption h) = (if ?v = Alg1 then 2 else if ?v = Alg2 then 3 else 4)
            \<and> encP (encryption h)
                = (if ?v = Alg1 then getPermissionsR2 (permissions options)
                   else getPermissionsR3 (permissions options))
            \<and> encO (encryption h)
                = getOwnerPasswordR2R3R4 cj (encR (encryption h)) (keyBits h) pu po
            \<and> encryptionKey h
                = getEncryptionKeyR2R3R4 cj (encR (encryption h)) (keyBits h) (fileID h)
                    pu (encO (encryption h)) (encP (encryption h))
            \<and> (if encR (encryption h) = 2
                then getUserPasswordR2 cj (encryptionKey h)
                else getUserPasswordR3R4 cj (fileID h) (encryptionKey h))
                = Inr (encU (encryption h))"
        unfolding h_def
        by (simp only: PDFSecurity.select_convs)
          (intro exI [of _ pu] exI [of _ po] conjI refl d(3) d(4) d(5) d(6) d(7) d(8) d(9))
      have A: "PDFSecurity_create cj version now options rs \<noteq> Inl ConfigurationError"
        using r by simp
      show ?thesis
        apply (intro conjI impI)
        subgoal using A True by blast
        subgoal
          apply (rule disjI2)
          apply (rule exI [of _ h], rule exI [of _ rs])
          apply (simp only: not5 if_False)
          using r f L not5 by (intro conjI) (simp_all only: if_False)
        done
    qed
  qed
qed

theorem create_fails_without_password_witness:
  "truthyString (userPassword fooOptions)
   \<and> PDFSecurity_create xorPrimitives ''1.3'' 0 fooOptions countingSource \<noteq> Inl ConfigurationError
   \<and> (\<exists>h rs'. PDFSecurity_create xorPrimitives ''1.3'' 0 fooOptions countingSource = Inr (h, rs')
             \<and> fileID h = generateFileID xorPrimitives 0
             \<and> encV (encryption h) = 1 \<and> keyBits h = 40 \<and> encR (encryption h) = 2
             \<and> getUserPasswordR2 xorPrimitives (encryptionKey h) = Inr (encU (encryption h)))
   \<and> PDFSecurity_create xorPrimitives ''1.3'' 0
        \<lparr>ownerPassword = None, userPassword = None, permissions = None\<rparr> countingSource
       = Inl ConfigurationError"
proof -
  have tu: "truthyString (userPassword fooOptions)"
    by (simp add: fooOptions_def)
  then have t: "truthyString (ownerPassword fooOptions) \<or> truthyString (userPassword fooOptions)"
    by simp
  have ok: "processPasswordR2R3R4 (userPassword fooOptions) \<noteq> Inl InvalidPasswordCharacter"
    by (simp add: processPasswordR2R3R4_spec fooOptions_def orEmpty_def)
  have ne: "PDFSecurity_create xorPrimitives ''1.3'' 0 fooOptions countingSource
            \<noteq> Inl InvalidPasswordCharacter"
    using ok
    by (auto simp: PDFSecurity_create_def initialize_def initializeV1V2V4_def Let_def
        algorithmForVersion_def fooOptions_def getUserPasswordR2_def processPasswordR2R3R4_None
        split: sum.splits)
  have v: "algorithmForVersion ''1.3'' = Alg1" by (simp add: algorithmForVersion_def)
  show ?thesis
    using create_fails_without_password [of xorPrimitives "''1.3''" 0 fooOptions countingSource]
      create_fails_without_password [of xorPrimitives "''1.3''" 0
        "\<lparr>ownerPassword = None, userPassword = None, permissions = None\<rparr>" countingSource]
      t tu ne v
    by auto
qed

section \<open>The encryption closure\<close>

lemma callEncryptFn_source: "snd (callEncryptFn cj f buffer rs) = rs"
  by (simp add: callEncryptFn_def split: EncryptFn.splits option.splits)

lemma callEncryptFn_any_source:
  "fst (callEncryptFn cj f buffer rs) = fst (callEncryptFn cj f buffer rs')"
  by (simp add: callEncryptFn_def split: EncryptFn.splits option.splits)

lemma callTwice_same: "fst (callTwice cj f buffer rs) = snd (callTwice cj f buffer rs)"
  using callEncryptFn_any_source [of cj f buffer rs "snd (callEncryptFn cj f buffer rs)"]
  by (simp add: callTwice_def split_def Let_def)

lemma create_ext3_V:
  "truthyString (ownerPassword options) \<or> truthyString (userPassword options) \<Longrightarrow>
   \<exists>h rs'. PDFSecurity_create cj ''1.7ext3'' now options rs = Inr (h, rs')
     \<and> encV (encryption h) = 5"
  by (auto simp: PDFSecurity_create_def initialize_def initializeV5_def split_def Let_def)

lemma getEncryptFn_V5:
  "encV (encryption this) = 5 \<Longrightarrow>
   getEncryptFn cj this ob gen rs =
     Inr (AESFn (Some (encryptionKey this)) (fst (generateRandomWordArray 16 rs)),
          snd (generateRandomWordArray 16 rs))"
  by (simp add: getEncryptFn_def aesEncryptFn_def split_def Let_def)

lemma getEncryptFn_V4:
  "encV (encryption this) = 4 \<Longrightarrow>
   getEncryptFn cj this ob gen rs =
     Inr (AESFn (Some (MD5 cj ((encryptionKey this @ WordArray_create (objGenWords ob gen) 5)
                               @ WordArray_create [0x73416c54] 4)))
            (fst (generateRandomWordArray 16 rs)),
          snd (generateRandomWordArray 16 rs))"
  by (simp add: getEncryptFn_def aesEncryptFn_def split_def Let_def)

text \<open>
  C1, as stated: on the AES paths, calling the returned closure twice on the same
  buffer yields two different ciphertexts. This fails: \<^verbatim>\<open>iv\<close> is drawn in
  \<^verbatim>\<open>getEncryptFn\<close>, before the closure is built, and the closure reuses it.
\<close>

theorem closure_twice_same_ciphertext:
  "\<exists>h rs0 f rs1 c.
     PDFSecurity_create xorPrimitives ''1.7ext3'' 0 fooOptions countingSource = Inr (h, rs0)
     \<and> encV (encryption h) = 5
     \<and> getEncryptFn xorPrimitives h 7 0 rs0 = Inr (f, rs1)
     \<and> callTwice xorPrimitives f [1, 2, 3] rs1 = (Inr c, Inr c)"
proof -
  obtain h rs0 where
    h: "PDFSecurity_create xorPrimitives ''1.7ext3'' 0 fooOptions countingSource = Inr (h, rs0)"
    and v: "encV (encryption h) = 5"
    using create_ext3_V [of fooOptions xorPrimitives 0 countingSource]
    by (auto simp: fooOptions_def)
  let ?f = "AESFn (Some (encryptionKey h)) (fst (generateRandomWordArray 16 rs0))"
  let ?rs = "snd (generateRandomWordArray 16 rs0)"
  have g: "getEncryptFn xorPrimitives h 7 0 rs0 = Inr (?f, ?rs)"
    by (rule getEncryptFn_V5) (rule v)
  have "\<exists>c. callTwice xorPrimitives ?f [1, 2, 3] ?rs = (Inr c, Inr c)"
    by (simp add: callTwice_def callEncryptFn_def Let_def)
  then show ?thesis using h v g by blast
qed

text \<open>
  C1, amended: for a handler with \<^verbatim>\<open>V = 4\<close> or \<^verbatim>\<open>V = 5\<close> and every object and generation
  number, \<^verbatim>\<open>getEncryptFn\<close> draws one 16-byte \<^verbatim>\<open>iv\<close> from the random source and returns
  a closure that holds it together with a key that does not depend on the random
  source. The closure may be invoked repeatedly: every invocation returns the \<^verbatim>\<open>iv\<close>
  followed by the ciphertext of the buffer under that key and \<^verbatim>\<open>iv\<close>, and leaves the
  random source alone, so two invocations on the same buffer return the same bytes.
  Closures from two calls of \<^verbatim>\<open>getEncryptFn\<close> that drew different \<^verbatim>\<open>iv\<close>s return different
  bytes on every pair of buffers.
\<close>

theorem getEncryptFn_iv_per_call:
  assumes "encV (encryption this) = 4 \<or> encV (encryption this) = 5"
  shows "\<exists>key. \<forall>rs. \<exists>iv rs1.
           generateRandomWordArray 16 rs = (iv, rs1) \<and> length iv = 16
         \<and> getEncryptFn cj this ob gen rs = Inr (AESFn (Some key) iv, rs1)
         \<and> (\<forall>buffer s. callEncryptFn cj (AESFn (Some key) iv) buffer s
                          = (Inr (iv @ AES_CBC_Pkcs7 cj buffer key iv), s))
         \<and> (\<forall>buffer s. fst (callTwice cj (AESFn (Some key) iv) buffer s)
                          = snd (callTwice cj (AESFn (Some key) iv) buffer s))
         \<and> (\<forall>rs' buffer buffer' s s'.
               fst (generateRandomWordArray 16 rs') \<noteq> iv \<longrightarrow>
               fst (callEncryptFn cj (AESFn (Some key) (fst (generateRandomWordArray 16 rs')))
                      buffer' s')
                 \<noteq> fst (callEncryptFn cj (AESFn (Some key) iv) buffer s))"
proof -
  define key where "key = (if encV (encryption this) = 5 then encryptionKey this
     else MD5 cj ((encryptionKey this @ WordArray_create (objGenWords ob gen) 5)
                    @ WordArray_create [0x73416c54] 4))"
  have g: "getEncryptFn cj this ob gen rs =
             Inr (AESFn (Some key) (fst (generateRandomWordArray 16 rs)),
                  snd (generateRandomWordArray 16 rs))" for rs
    using assms getEncryptFn_V4 [of this cj ob gen rs] getEncryptFn_V5 [of this cj ob gen rs]
    by (auto simp: key_def)
  have d: "fst (callEncryptFn cj (AESFn (Some key) iv') buffer' s')
             \<noteq> fst (callEncryptFn cj (AESFn (Some key) iv) buffer s)"
    if "iv' \<noteq> iv" "length iv' = 16" "length iv = 16" for iv iv' :: bytes and buffer buffer' s s'
    using that by (simp add: callEncryptFn_def)
  show ?thesis
  proof (rule exI [of _ key], rule allI)
    fix rs
    show "\<exists>iv rs1. generateRandomWordArray 16 rs = (iv, rs1) \<and> length iv = 16
         \<and> getEncryptFn cj this ob gen rs = Inr (AESFn (Some key) iv, rs1)
         \<and> (\<forall>buffer s. callEncryptFn cj (AESFn (Some key) iv) buffer s
                          = (Inr (iv @ AES_CBC_Pkcs7 cj buffer key iv), s))
         \<and> (\<forall>buffer s. fst (callTwice cj (AESFn (Some key) iv) buffer s)
                          = snd (callTwice cj (AESFn (Some key) iv) buffer s))
         \<and> (\<forall>rs' buffer buffer' s s'.
               fst (generateRandomWordArray 16 rs') \<noteq> iv \<longrightarrow>
               fst (callEncryptFn cj (AESFn (Some key) (fst (generateRandomWordArray 16 rs')))
                      buffer' s')
                 \<noteq> fst (callEncryptFn cj (AESFn (Some key) iv) buffer s))"
    proof -
      let ?iv = "fst (generateRandomWordArray 16 rs)"
      let ?rs1 = "snd (generateRandomWordArray 16 rs)"
      have 1: "generateRandomWordArray 16 rs = (?iv, ?rs1)" by simp
      have 2: "length ?iv = 16" by simp
      have 3: "\<forall>buffer s. callEncryptFn cj (AESFn (Some key) ?iv) buffer s
                 = (Inr (?iv @ AES_CBC_Pkcs7 cj buffer key ?iv), s)"
        by (simp add: callEncryptFn_def)
      have 4: "\<forall>buffer s. fst (callTwice cj (AESFn (Some key) ?iv) buffer s)
                 = snd (callTwice cj (AESFn (Some key) ?iv) buffer s)"
        by (simp add: callTwice_same)
      have 5: "\<forall>rs' buffer buffer' s s'.
               fst (generateRandomWordArray 16 rs') \<noteq> ?iv \<longrightarrow>
               fst (callEncryptFn cj (AESFn (Some key) (fst (generateRandomWordArray 16 rs')))
                      buffer' s')
                 \<noteq> fst (callEncryptFn cj (AESFn (Some key) ?iv) buffer s)"
        using d by simp
      show ?thesis using 1 2 g [of rs] 3 4 5 by blast
    qed
  qed
qed

theorem getEncryptFn_iv_per_call_witness:
  "\<exists>h rs0 key iv rs1.
     PDFSecurity_create xorPrimitives ''1.7ext3'' 0 fooOptions countingSource = Inr (h, rs0)
     \<and> encV (encryption h) = 5
     \<and> generateRandomWordArray 16 rs0 = (iv, rs1) \<and> length iv = 16
     \<and> getEncryptFn xorPrimitives h 7 0 rs0 = Inr (AESFn (Some key) iv, rs1)
     \<and> fst (callTwice xorPrimitives (AESFn (Some key) iv) [1, 2, 3] rs1)
         = snd (callTwice xorPrimitives (AESFn (Some key) iv) [1, 2, 3] rs1)"
proof -
  obtain h rs0 where
    h: "PDFSecurity_create xorPrimitives ''1.7ext3'' 0 fooOptions countingSource = Inr (h, rs0)"
    and v: "encV (encryption h) = 5"
    using create_ext3_V [of fooOptions xorPrimitives 0 countingSource]
    by (auto simp: fooOptions_def)
  have "encV (encryption h) = 4 \<or> encV (encryption h) = 5" using v by simp
  from getEncryptFn_iv_per_call [OF this, of xorPrimitives 7 0]
  obtain key where k: "\<forall>rs. \<exists>iv rs1.
           generateRandomWordArray 16 rs = (iv, rs1) \<and> length iv = 16
         \<and> getEncryptFn xorPrimitives h 7 0 rs = Inr (AESFn (Some key) iv, rs1)
         \<and> (\<forall>buffer s. callEncryptFn xorPrimitives (AESFn (Some key) iv) buffer s
                          = (Inr (iv @ AES_CBC_Pkcs7 xorPrimitives buffer key iv), s))
         \<and> (\<forall>buffer s. fst (callTwice xorPrimitives (AESFn (Some key) iv) buffer s)
                          = snd (callTwice xorPrimitives (AESFn (Some key) iv) buffer s))
         \<and> (\<forall>rs' buffer buffer' s s'.
               fst (generateRandomWordArray 16 rs') \<noteq> iv \<longrightarrow>
               fst (callEncryptFn xorPrimitives
                      (AESFn (Some key) (fst (generateRandomWordArray 16 rs'))) buffer' s')
                 \<noteq> fst (callEncryptFn xorPrimitives (AESFn (Some key) iv) buffer s))"
    by blast
  from k [rule_format, of rs0] h v show ?thesis by blast
qed

section \<open>The object graph\<close>

subsection \<open>Enumeration in ascending order\<close>

lemma mset_insertSorted: "mset (insertSorted cmp x ys) = add_mset x (mset ys)"
  by (induction ys) auto

lemma set_insertSorted: "set (insertSorted cmp x ys) = insert x (set ys)"
  by (induction ys) auto

lemma sorted_insertSorted:
  "sorted (map (\<lambda>e. objectNumber (fst e)) ys) \<Longrightarrow>
   sorted (map (\<lambda>e. objectNumber (fst e)) (insertSorted byAscendingObjectNumber x ys))"
  by (induction ys) (auto simp: byAscendingObjectNumber_def set_insertSorted)

lemma fold_insertSorted:
  "sorted (map (\<lambda>e. objectNumber (fst e)) acc) \<Longrightarrow>
   sorted (map (\<lambda>e. objectNumber (fst e)) (fold (insertSorted byAscendingObjectNumber) xs acc))
   \<and> mset (fold (insertSorted byAscendingObjectNumber) xs acc) = mset xs + mset acc"
  by (induction xs arbitrary: acc) (auto simp: sorted_insertSorted mset_insertSorted)

text \<open>
  C6: for every content of the map, in whatever order its entries were inserted,
  \<^verbatim>\<open>enumerateIndirectObjects\<close> returns exactly the entries of the map (each pair once),
  in ascending order of object number.
\<close>

theorem enumerateIndirectObjects_ascending:
  "sorted (map (\<lambda>e. objectNumber (fst e)) (enumerateIndirectObjects ctx))
   \<and> mset (enumerateIndirectObjects ctx) = mset (indirectObjects ctx)"
  using fold_insertSorted [of "[]" "indirectObjects ctx"]
  by (simp add: enumerateIndirectObjects_def Array_sort_def)

subsection \<open>Fresh references\<close>

lemma jsIncrement_ge: "n \<le> jsIncrement n"
  by (simp add: jsIncrement_def)

lemma jsIncrement_exact: "- (2 ^ 53) \<le> n \<Longrightarrow> n < 2 ^ 53 \<Longrightarrow> jsIncrement n = n + 1"
  by (simp add: jsIncrement_def)

lemma largest_assign:
  "largestObjectNumber (assign ref object ctx) = max (objectNumber ref) (largestObjectNumber ctx)"
  by (simp add: assign_def Let_def)

lemma largest_nextRef:
  "largestObjectNumber (snd (nextRef ctx)) = jsIncrement (largestObjectNumber ctx)"
  "objectNumber (fst (nextRef ctx)) = jsIncrement (largestObjectNumber ctx)"
  by (simp_all add: nextRef_def Let_def PDFRef_of_def)

lemma largest_register:
  "largestObjectNumber (snd (register object ctx)) = jsIncrement (largestObjectNumber ctx)"
  "objectNumber (fst (register object ctx)) = jsIncrement (largestObjectNumber ctx)"
  by (simp_all add: register_def split_def Let_def largest_assign largest_nextRef)

lemma largest_delete: "largestObjectNumber (snd (delete ref ctx)) = largestObjectNumber ctx"
  by (simp add: delete_def)

lemma largest_getPush:
  "largestObjectNumber (snd (getPushGraphicsStateContentStream oc ctx)) =
     (if pushGraphicsStateContentStreamRef ctx = None
      then jsIncrement (largestObjectNumber ctx) else largestObjectNumber ctx)"
  "pushGraphicsStateContentStreamRef ctx = None \<Longrightarrow>
   objectNumber (fst (getPushGraphicsStateContentStream oc ctx))
     = jsIncrement (largestObjectNumber ctx)"
  by (auto simp: getPushGraphicsStateContentStream_def split_def Let_def largest_register
      split: option.splits)

lemma largest_getPop:
  "largestObjectNumber (snd (getPopGraphicsStateContentStream oc ctx)) =
     (if popGraphicsStateContentStreamRef ctx = None
      then jsIncrement (largestObjectNumber ctx) else largestObjectNumber ctx)"
  "popGraphicsStateContentStreamRef ctx = None \<Longrightarrow>
   objectNumber (fst (getPopGraphicsStateContentStream oc ctx))
     = jsIncrement (largestObjectNumber ctx)"
  by (auto simp: getPopGraphicsStateContentStream_def split_def Let_def largest_register
      split: option.splits)

lemma step_monotone: "largestObjectNumber ctx \<le> largestObjectNumber (step oc op ctx)"
  using jsIncrement_ge [of "largestObjectNumber ctx"]
  by (cases op)
    (simp_all add: largest_assign largest_nextRef largest_register largest_delete
      largest_getPush largest_getPop)

lemma run_monotone: "largestObjectNumber ctx \<le> largestObjectNumber (run oc ops ctx)"
proof (induction ops arbitrary: ctx)
  case Nil
  then show ?case by (simp add: run_def)
next
  case (Cons op ops)
  have "largestObjectNumber ctx \<le> largestObjectNumber (step oc op ctx)" by (rule step_monotone)
  also have "\<dots> \<le> largestObjectNumber (run oc ops (step oc op ctx))" by (rule Cons.IH)
  finally show ?case by (simp add: run_def)
qed

lemma assignedBy_le:
  "n \<in> set (assignedBy oc op ctx) \<Longrightarrow> n \<le> largestObjectNumber (step oc op ctx)"
  by (cases op)
    (auto simp: largest_assign largest_register largest_getPush largest_getPop split: if_splits)

lemma assignedNumbers_le:
  "n \<in> set (assignedNumbers oc ops ctx) \<Longrightarrow> n \<le> largestObjectNumber (run oc ops ctx)"
proof (induction ops arbitrary: ctx)
  case Nil
  then show ?case by simp
next
  case (Cons op ops)
  from Cons.prems consider "n \<in> set (assignedBy oc op ctx)"
    | "n \<in> set (assignedNumbers oc ops (step oc op ctx))" by auto
  then show ?case
  proof cases
    case 1
    then have "n \<le> largestObjectNumber (step oc op ctx)" by (rule assignedBy_le)
    also have "\<dots> \<le> largestObjectNumber (run oc ops (step oc op ctx))" by (rule run_monotone)
    finally show ?thesis by (simp add: run_def)
  next
    case 2
    then show ?thesis using Cons.IH by (simp add: run_def)
  qed
qed

text \<open>
  C4, as stated: after any finite sequence of \<^verbatim>\<open>assign\<close> and \<^verbatim>\<open>register\<close> operations,
  \<^verbatim>\<open>nextRef()\<close> returns an object number strictly greater than every previously assigned
  one. This fails once an object number reaches \<open>2^53\<close>: after
  \<^verbatim>\<open>assign(PDFRef.of(9007199254740992), PDFNull)\<close> on a fresh graph, \<^verbatim>\<open>nextRef()\<close> returns
  the object number 9007199254740992 again, because \<^verbatim>\<open>largestObjectNumber += 1\<close> is
  computed on doubles.
\<close>

theorem nextRef_not_greater_at_2_53:
  "assignedNumbers plainClasses [Assign hugeRef PDFNull] create = [9007199254740992]
   \<and> objectNumber (fst (nextRef (run plainClasses [Assign hugeRef PDFNull] create)))
       = 9007199254740992"
  by (simp add: run_def hugeRef_def PDFRef_of_def assign_def create_def nextRef_def Let_def
      jsIncrement_def)

text \<open>
  C4, amended: on a freshly created graph \<^verbatim>\<open>register()\<close> returns a reference with
  object number 1; \<^verbatim>\<open>largestObjectNumber\<close> never decreases, whatever the operation; and
  after any finite sequence of operations on a fresh graph that leaves
  \<^verbatim>\<open>largestObjectNumber\<close> below \<open>2^53\<close>, \<^verbatim>\<open>nextRef()\<close> returns an object number strictly
  greater than every object number assigned before.
\<close>

theorem nextRef_exceeds_assigned:
  "objectNumber (fst (register object create)) = 1
   \<and> largestObjectNumber ctx \<le> largestObjectNumber (step oc op ctx)
   \<and> (largestObjectNumber (run oc ops create) < 2 ^ 53 \<longrightarrow>
        (\<forall>n \<in> set (assignedNumbers oc ops create).
           n < objectNumber (fst (nextRef (run oc ops create)))))"
proof (intro conjI impI ballI)
  show "objectNumber (fst (register object create)) = 1"
    by (simp add: largest_register create_def jsIncrement_def)
  show "largestObjectNumber ctx \<le> largestObjectNumber (step oc op ctx)"
    by (rule step_monotone)
next
  fix n
  assume small: "largestObjectNumber (run oc ops create) < 2 ^ 53"
    and n: "n \<in> set (assignedNumbers oc ops create)"
  have "0 \<le> largestObjectNumber (run oc ops create)"
    using run_monotone [of create oc ops] by (simp add: create_def)
  then have "jsIncrement (largestObjectNumber (run oc ops create))
             = largestObjectNumber (run oc ops create) + 1"
    using small by (intro jsIncrement_exact) simp_all
  moreover have "n \<le> largestObjectNumber (run oc ops create)"
    using n by (rule assignedNumbers_le)
  ultimately show "n < objectNumber (fst (nextRef (run oc ops create)))"
    by (simp add: largest_nextRef)
qed

theorem nextRef_exceeds_assigned_witness:
  "largestObjectNumber
     (run plainClasses [Register PDFNull, Assign (PDFRef_of 9000) (PDFBool True)] create) < 2 ^ 53
   \<and> assignedNumbers plainClasses [Register PDFNull, Assign (PDFRef_of 9000) (PDFBool True)] create
       = [1, 9000]
   \<and> objectNumber (fst (nextRef
        (run plainClasses [Register PDFNull, Assign (PDFRef_of 9000) (PDFBool True)] create)))
       = 9001
   \<and> list_all (\<lambda>n. n < 9001)
        (assignedNumbers plainClasses [Register PDFNull, Assign (PDFRef_of 9000) (PDFBool True)]
           create)"
proof -
  let ?ops = "[Register PDFNull, Assign (PDFRef_of 9000) (PDFBool True)]"
  have l: "largestObjectNumber (run plainClasses ?ops create) = 9000"
    by (simp add: run_def largest_assign largest_register create_def jsIncrement_def
        PDFRef_of_def)
  have a: "assignedNumbers plainClasses ?ops create = [1, 9000]"
    by (simp add: largest_register create_def jsIncrement_def PDFRef_of_def)
  have nx: "objectNumber (fst (nextRef (run plainClasses ?ops create))) = 9001"
    by (simp add: largest_nextRef l jsIncrement_def)
  have small: "largestObjectNumber (run plainClasses ?ops create) < 2 ^ 53" by (simp add: l)
  have "\<forall>n \<in> set (assignedNumbers plainClasses ?ops create).
          n < objectNumber (fst (nextRef (run plainClasses ?ops create)))"
    using nextRef_exceeds_assigned [of PDFNull create plainClasses NextRef ?ops] small by blast
  then show ?thesis using small a nx by (simp add: list_all_iff)
qed

subsection \<open>The memoized content streams\<close>

















section \<open>Literal conversions\<close>










end
